theory Spec2Isabelle
  imports Main "HOL-Library.Sublist"
begin

section \<open>JavaScript values read from the GeoJSON document\<close>

text \<open>
  The tour data is the result of \<^verbatim>\<open>res.json()\<close>: a JSON value. A JavaScript expression
  that may also be \<^verbatim>\<open>undefined\<close> (a missing property, a missing DOM element) is a
  \<open>json option\<close>, with \<open>None\<close> for \<^verbatim>\<open>undefined\<close>. Strings are lists of code units in
  the Latin-1 range (one \<open>char\<close> each); numbers are the integer-valued ones that
  JavaScript writes in plain decimal. An object is the list of its own properties, each
  key once.
\<close>

datatype json =
    JNull
  | JBool bool
  | JNum int
  | JStr string
  | JArr "json list"
  | JObj "(string \<times> json) list"

datatype error = TypeError | SyntaxError | NetworkFailure | LibraryError

text \<open>\<^verbatim>\<open>Boolean(v)\<close>, the test behind \<^verbatim>\<open>!v\<close>, \<^verbatim>\<open>a || b\<close>, \<^verbatim>\<open>c ? x : y\<close> and
  \<^verbatim>\<open>filter(Boolean)\<close>.\<close>

fun truthy :: "json \<Rightarrow> bool" where
  "truthy JNull = False"
| "truthy (JBool b) = b"
| "truthy (JNum n) = (n \<noteq> 0)"
| "truthy (JStr s) = (s \<noteq> [])"
| "truthy (JArr xs) = True"
| "truthy (JObj kvs) = True"

fun truthyV :: "json option \<Rightarrow> bool" where
  "truthyV None = False"
| "truthyV (Some v) = truthy v"

text \<open>\<^verbatim>\<open>a || b\<close> and \<^verbatim>\<open>a ?? b\<close> on possibly undefined values.\<close>

definition orElse :: "json option \<Rightarrow> json option \<Rightarrow> json option" where
  "orElse a b = (if truthyV a then a else b)"

fun nullish :: "json option \<Rightarrow> bool" where
  "nullish None = True"
| "nullish (Some JNull) = True"
| "nullish (Some v) = False"

definition coalesce :: "json option \<Rightarrow> json option \<Rightarrow> json option" where
  "coalesce a b = (if nullish a then b else a)"

text \<open>Property read \<^verbatim>\<open>v.k\<close> on a value that is not \<^verbatim>\<open>null\<close>: only an object of the
  document has the properties the scripts read; a number, string, boolean or array has
  none of those names.\<close>

fun get :: "json \<Rightarrow> string \<Rightarrow> json option" where
  "get (JObj kvs) k = map_of kvs k"
| "get v k = None"

subsection \<open>Conversion to string\<close>

definition digitChar :: "nat \<Rightarrow> char" where
  "digitChar d = char_of (48 + d)"

fun decimal :: "nat \<Rightarrow> string" where
  "decimal n = (if n < 10 then [digitChar n] else decimal (n div 10) @ [digitChar (n mod 10)])"

declare decimal.simps [simp del]

definition numberToString :: "int \<Rightarrow> string" where
  "numberToString i = (if i < 0 then CHR ''-'' # decimal (nat (- i)) else decimal (nat i))"

fun joinWith :: "string \<Rightarrow> string list \<Rightarrow> string" where
  "joinWith sep [] = []"
| "joinWith sep [x] = x"
| "joinWith sep (x # y # ys) = x @ sep @ joinWith sep (y # ys)"

text \<open>\<^verbatim>\<open>String(v)\<close>, \<^verbatim>\<open>v.toString()\<close> and template interpolation of a defined value. An
  array joins its elements with commas, \<^verbatim>\<open>null\<close> elements as the empty string.\<close>

fun toString :: "json \<Rightarrow> string" where
  "toString JNull = ''null''"
| "toString (JBool b) = (if b then ''true'' else ''false'')"
| "toString (JNum n) = numberToString n"
| "toString (JStr s) = s"
| "toString (JArr xs) = joinWith '','' (map (\<lambda>x. if x = JNull then [] else toString x) xs)"
| "toString (JObj kvs) = ''[object Object]''"

fun String_js :: "json option \<Rightarrow> string" where
  "String_js None = ''undefined''"
| "String_js (Some v) = toString v"

subsection \<open>trim, toLowerCase, includes\<close>

definition isWhiteSpace :: "char \<Rightarrow> bool" where
  "isWhiteSpace c = ((of_char c :: nat) \<in> {9, 10, 11, 12, 13, 32, 160})"

definition trim :: "string \<Rightarrow> string" where
  "trim s = rev (dropWhile isWhiteSpace (rev (dropWhile isWhiteSpace s)))"

definition toLowerChar :: "char \<Rightarrow> char" where
  "toLowerChar c =
     (let n = (of_char c :: nat)
      in if (65 \<le> n \<and> n \<le> 90) \<or> (192 \<le> n \<and> n \<le> 222 \<and> n \<noteq> 215)
         then char_of (n + 32) else c)"

definition toLowerCase :: "string \<Rightarrow> string" where
  "toLowerCase s = map toLowerChar s"

text \<open>\<^verbatim>\<open>hay.includes(q)\<close>: \<open>q\<close> occurs in \<open>hay\<close> as a contiguous run.\<close>

fun includes_js :: "string \<Rightarrow> string \<Rightarrow> bool" where
  "includes_js [] q = (q = [])"
| "includes_js (c # h) q = (prefix q (c # h) \<or> includes_js h q)"

section \<open>Shared helpers of both scripts\<close>

text \<open>\<^verbatim>\<open>(s ?? "").toString().trim().toLowerCase()\<close>\<close>

definition norm :: "json option \<Rightarrow> string" where
  "norm s = toLowerCase (trim (String_js (coalesce s (Some (JStr [])))))"

text \<open>The form controls: \<^verbatim>\<open>$(id)?.value\<close> is the control's string, or \<^verbatim>\<open>undefined\<close>
  when the page has no element of that id.\<close>

type_synonym controls = "string \<Rightarrow> string option"

definition controlValue :: "controls \<Rightarrow> string \<Rightarrow> json option" where
  "controlValue ui ident = map_option JStr (ui ident)"

section \<open>The filter predicate\<close>

text \<open>\<^verbatim>\<open>passesFilters\<close> of docs/js/main\_mapbox.js (selectors province and region).\<close>

definition hayMapbox :: "json \<Rightarrow> string" where
  "hayMapbox p =
     norm (get p ''title'') @ '' '' @ norm (get p ''region'') @ '' '' @
     norm (get p ''province'') @ '' '' @ norm (get p ''subtitle'') @ '' '' @
     norm (get p ''country'')"

definition passesFilters :: "controls \<Rightarrow> json \<Rightarrow> bool" where
  "passesFilters ui p =
     (let q = norm (controlValue ui ''q'');
          prov = norm (controlValue ui ''province'');
          reg = norm (controlValue ui ''region'');
          hay = hayMapbox p
      in if q \<noteq> [] \<and> \<not> includes_js hay q then False
         else if prov \<noteq> [] \<and> norm (get p ''province'') \<noteq> prov then False
         else if reg \<noteq> [] \<and> norm (get p ''region'') \<noteq> reg then False
         else True)"

text \<open>\<^verbatim>\<open>passesFilters\<close> of docs/js/main.js (selectors difficulty and activity).\<close>

definition hayMain :: "json \<Rightarrow> string" where
  "hayMain p =
     norm (get p ''title'') @ '' '' @ norm (get p ''region'') @ '' '' @
     norm (get p ''subtitle'') @ '' '' @ norm (get p ''activity'') @ '' '' @
     norm (get p ''difficulty'')"

definition passesFilters_main :: "controls \<Rightarrow> json \<Rightarrow> bool" where
  "passesFilters_main ui p =
     (let q = norm (controlValue ui ''q'');
          diff = norm (controlValue ui ''difficulty'');
          act = norm (controlValue ui ''activity'');
          hay = hayMain p
      in if q \<noteq> [] \<and> \<not> includes_js hay q then False
         else if diff \<noteq> [] \<and> norm (get p ''difficulty'') \<noteq> diff then False
         else if act \<noteq> [] \<and> norm (get p ''activity'') \<noteq> act then False
         else True)"


section \<open>Navigation\<close>

text \<open>\<^verbatim>\<open>window.open(url, target, features)\<close>, the only effect of \<^verbatim>\<open>openTour\<close>.\<close>

datatype navigation = WindowOpen string string string

definition openTour :: "json \<Rightarrow> navigation option" where
  "openTour p =
     (let url = orElse (get p ''page'')
                  (if truthyV (get p ''slug'')
                   then Some (JStr (''./tours/'' @ String_js (get p ''slug'') @ ''.html''))
                   else Some JNull)
      in if \<not> truthyV url then None
         else Some (WindowOpen (String_js url) ''_blank'' ''noopener,noreferrer''))"

section \<open>Direction to colour\<close>

text \<open>\<^verbatim>\<open>p?.k\<close>: a property read that yields \<^verbatim>\<open>undefined\<close> on \<^verbatim>\<open>null\<close> and
  \<^verbatim>\<open>undefined\<close>.\<close>

fun getOpt :: "json option \<Rightarrow> string \<Rightarrow> json option" where
  "getOpt None k = None"
| "getOpt (Some JNull) k = None"
| "getOpt (Some v) k = get v k"

definition trackColorFromProps :: "json option \<Rightarrow> string" where
  "trackColorFromProps p =
     (let d = norm (orElse (orElse (getOpt p ''direction'') (getOpt p ''direcrtion''))
                      (Some (JStr [])))
      in if d = ''up'' \<or> d = ''ascent'' then ''#1f6feb''
         else if d = ''down'' \<or> d = ''descent'' then ''#b64a4a''
         else if d = ''traverse'' \<or> d = ''cross'' then ''#b000b5''
         else ''#1f6feb'')"

text \<open>The \<^verbatim>\<open>line-color\<close> and \<^verbatim>\<open>circle-color\<close> paint expression of
  \<^verbatim>\<open>ensureSourceAndLayers\<close>: \<^verbatim>\<open>["downcase", ["coalesce", ["get", "direction"],
  ["get", "direcrtion"], ""]]\<close> compared with the six names in a \<^verbatim>\<open>case\<close>. The
  expression language takes the first operand of \<^verbatim>\<open>coalesce\<close> that is not null and
  lower-cases a string; on any other value \<^verbatim>\<open>downcase\<close> has no result (\<open>None\<close>).\<close>

definition paintColor :: "json \<Rightarrow> string option" where
  "paintColor p =
     (case coalesce (coalesce (get p ''direction'') (get p ''direcrtion'')) (Some (JStr [])) of
        Some (JStr s) \<Rightarrow>
          (let d = toLowerCase s
           in if d = ''up'' \<or> d = ''ascent'' then Some ''#1f6feb''
              else if d = ''down'' \<or> d = ''descent'' then Some ''#b64a4a''
              else if d = ''traverse'' \<or> d = ''cross'' then Some ''#b000b5''
              else Some ''#1f6feb'')
      | _ \<Rightarrow> None)"

section \<open>Selector values\<close>

text \<open>\<^verbatim>\<open>Array.from(new Set(xs))\<close>: each value once, in the order of first occurrence.\<close>

definition uniq :: "'a list \<Rightarrow> 'a list" where
  "uniq xs = foldl (\<lambda>acc x. if x \<in> set acc then acc else acc @ [x]) [] xs"

text \<open>\<^verbatim>\<open>xs.sort(cmp)\<close>, a stable sort. The comparator of \<^verbatim>\<open>uniqSorted\<close> is
  \<^verbatim>\<open>a.localeCompare(b, undefined, { sensitivity: "base" })\<close>, the collation of the
  browser's locale: it is the parameter \<open>cmp\<close> (negative, zero or positive).\<close>

fun insertSorted :: "('a \<Rightarrow> 'a \<Rightarrow> int) \<Rightarrow> 'a \<Rightarrow> 'a list \<Rightarrow> 'a list" where
  "insertSorted cmp x [] = [x]"
| "insertSorted cmp x (y # ys) =
     (if cmp x y \<le> 0 then x # y # ys else y # insertSorted cmp x ys)"

definition sortWith :: "('a \<Rightarrow> 'a \<Rightarrow> int) \<Rightarrow> 'a list \<Rightarrow> 'a list" where
  "sortWith cmp xs = foldr (insertSorted cmp) xs []"

text \<open>\<^verbatim>\<open>uniqSorted\<close> on the arrays it is called with, which hold strings
  (\<^verbatim>\<open>.map(String)\<close>): \<^verbatim>\<open>filter(Boolean)\<close> keeps the non-empty ones.\<close>

definition uniqSorted :: "(string \<Rightarrow> string \<Rightarrow> int) \<Rightarrow> string list \<Rightarrow> string list" where
  "uniqSorted cmp arr = sortWith cmp (uniq (filter (\<lambda>s. s \<noteq> []) arr))"

section \<open>Bounds\<close>

text \<open>A \<^verbatim>\<open>mapboxgl.LngLatBounds\<close> is known to the scripts through \<^verbatim>\<open>extend\<close> and
  \<^verbatim>\<open>isEmpty\<close> only: it is the list of the points it was extended with, empty when
  new. The library refuses some points (\<^verbatim>\<open>extend\<close> throws on them): \<open>valid\<close> says
  which it accepts.\<close>

type_synonym lngLatBounds = "(int \<times> int) list"

definition bounds_extend :: "(int \<times> int \<Rightarrow> bool) \<Rightarrow> lngLatBounds \<Rightarrow> int \<times> int \<Rightarrow> error + lngLatBounds" where
  "bounds_extend valid b pt = (if valid pt then Inr (b @ [pt]) else Inl LibraryError)"

definition isEmpty :: "lngLatBounds \<Rightarrow> bool" where
  "isEmpty b = (b = [])"

text \<open>\<^verbatim>\<open>coords[i]\<close> on a value that is not null.\<close>

fun index :: "json \<Rightarrow> nat \<Rightarrow> json option" where
  "index (JArr xs) i = (if i < length xs then Some (xs ! i) else None)"
| "index (JObj kvs) i = map_of kvs (decimal i)"
| "index (JStr s) i = (if i < length s then Some (JStr [s ! i]) else None)"
| "index v i = None"

text \<open>\<^verbatim>\<open>typeof v === "number"\<close>, and the number read under that test.\<close>

fun isNumber :: "json option \<Rightarrow> bool" where
  "isNumber (Some (JNum n)) = True"
| "isNumber v = False"

fun numberOf :: "json option \<Rightarrow> int" where
  "numberOf (Some (JNum n)) = n"
| "numberOf v = 0"

fun extendBoundsWithCoords :: "(int \<times> int \<Rightarrow> bool) \<Rightarrow> lngLatBounds \<Rightarrow> json \<Rightarrow> error + lngLatBounds"
  and extendEach :: "(int \<times> int \<Rightarrow> bool) \<Rightarrow> lngLatBounds \<Rightarrow> json list \<Rightarrow> error + lngLatBounds"
where
  "extendBoundsWithCoords valid bounds coords =
     (if \<not> truthy coords then Inr bounds
      else if isNumber (index coords 0) \<and> isNumber (index coords 1)
      then bounds_extend valid bounds (numberOf (index coords 0), numberOf (index coords 1))
      else (case coords of
              JArr cs \<Rightarrow> extendEach valid bounds cs
            | _ \<Rightarrow> Inr bounds))"
| "extendEach valid bounds [] = Inr bounds"
| "extendEach valid bounds (c # cs) =
     (case extendBoundsWithCoords valid bounds c of
        Inl e \<Rightarrow> Inl e
      | Inr b \<Rightarrow> extendEach valid b cs)"

declare extendBoundsWithCoords.simps [simp del]

text \<open>The loop of \<^verbatim>\<open>boundsForFeatures\<close>, with \<open>b\<close> the bounds so far (\<open>None\<close> for
  \<^verbatim>\<open>null\<close>).\<close>

fun boundsLoop :: "(int \<times> int \<Rightarrow> bool) \<Rightarrow> lngLatBounds option \<Rightarrow> json list \<Rightarrow> error + lngLatBounds option" where
  "boundsLoop valid b [] = Inr b"
| "boundsLoop valid b (f # fs) =
     (let g = getOpt (Some f) ''geometry''
      in if \<not> truthyV g \<or> \<not> truthyV (getOpt g ''coordinates'') then boundsLoop valid b fs
         else (case getOpt g ''coordinates'' of
                 None \<Rightarrow> boundsLoop valid b fs
               | Some coords \<Rightarrow>
                   (case extendBoundsWithCoords valid (case b of None \<Rightarrow> [] | Some b0 \<Rightarrow> b0) coords of
                      Inl e \<Rightarrow> Inl e
                    | Inr b1 \<Rightarrow> boundsLoop valid (Some b1) fs)))"

definition boundsForFeatures :: "(int \<times> int \<Rightarrow> bool) \<Rightarrow> json list \<Rightarrow> error + lngLatBounds option" where
  "boundsForFeatures valid features = boundsLoop valid None features"


section \<open>Popup markup\<close>

text \<open>\<^verbatim>\<open>s.replaceAll(c, r)\<close> for a pattern \<open>c\<close> of one character.\<close>

definition replaceAll :: "char \<Rightarrow> string \<Rightarrow> string \<Rightarrow> string" where
  "replaceAll c r s = concat (map (\<lambda>x. if x = c then r else [x]) s)"

definition escapeHtml :: "json option \<Rightarrow> string" where
  "escapeHtml s =
     replaceAll (CHR 0x27) ''&#039;''
       (replaceAll (CHR 0x22) ''&quot;''
          (replaceAll (CHR ''>'') ''&gt;''
             (replaceAll (CHR ''<'') ''&lt;''
                (replaceAll (CHR ''&'') ''&amp;'' (String_js s)))))"

definition escapeAttr :: "json option \<Rightarrow> string" where
  "escapeAttr s = replaceAll (CHR 0x22) ''%22'' (String_js s)"

text \<open>The array \<^verbatim>\<open>lines\<close> of \<^verbatim>\<open>popupHtml\<close> before \<^verbatim>\<open>filter(Boolean)\<close>, then the
  function itself.\<close>

definition popupLines :: "json \<Rightarrow> string list" where
  "popupLines p =
     (let dir = orElse (orElse (get p ''direction'') (get p ''direcrtion'')) (Some (JStr []));
          title = coalesce (coalesce (get p ''title'') (get p ''slug'')) (Some (JStr ''Tour''))
      in [ ''<b>'' @ escapeHtml title @ ''</b>'',
           if truthyV (get p ''region'') then escapeHtml (get p ''region'') else [],
           if truthyV dir then escapeHtml dir else [],
           if \<not> nullish (get p ''vert_m'')
           then ''Vert: '' @ escapeHtml (Some (JStr (String_js (get p ''vert_m'')))) @ '' m''
           else [],
           if \<not> nullish (get p ''distance_km'')
           then ''Dist: '' @ escapeHtml (Some (JStr (String_js (get p ''distance_km'')))) @ '' km''
           else [],
           if truthyV (get p ''gpx'')
           then ''<a href='' @ [CHR 0x22] @ escapeAttr (get p ''gpx'') @ [CHR 0x22] @
                '' target='' @ [CHR 0x22] @ ''_blank'' @ [CHR 0x22] @
                '' rel='' @ [CHR 0x22] @ ''noopener'' @ [CHR 0x22] @ ''>Download GPX</a>''
           else [] ])"

definition popupHtml :: "json \<Rightarrow> string" where
  "popupHtml p = joinWith ''<br>'' (filter (\<lambda>l. l \<noteq> []) (popupLines p))"

section \<open>The page\<close>

text \<open>What the scripts read and write: the module variable \<^verbatim>\<open>allFeatures\<close>, the form
  controls, the options of the select elements, the text of \<^verbatim>\<open>#count\<close> and the cards of
  \<^verbatim>\<open>#grid\<close> (\<open>None\<close> when the page has no such element), the Leaflet map and its
  GeoJSON layer, the data of the Mapbox source \<^verbatim>\<open>tours\<close> (\<open>None\<close> before the source is
  added), the calls of \<^verbatim>\<open>map.fitBounds\<close>, the errors written by \<^verbatim>\<open>console.error\<close>, and
  the number of calls of \<^verbatim>\<open>fetch\<close>.\<close>

record card =
  coverImage :: "(string \<times> string) option"
  coverText :: string
  titleText :: string
  subtitleText :: "string option"
  chips :: "string list"
  clickTarget :: json

record page =
  allFeatures :: "json list"
  inputs :: controls
  selectOptions :: "string \<Rightarrow> (string \<times> string) list"
  countLabel :: "string option"
  grid :: "card list option"
  leafletMap :: bool
  geoLayer :: "json list option"
  tourSource :: "json list option"
  fitCalls :: "(lngLatBounds \<times> nat \<times> nat) list"
  consoleErrors :: "error list"
  fetchCount :: nat

text \<open>A function that can throw returns the page it leaves behind and the error thrown,
  if any.\<close>

type_synonym outcome = "page \<times> error option"

text \<open>\<^verbatim>\<open>f.properties || {}\<close>; reading a property of \<^verbatim>\<open>null\<close> throws.\<close>

definition propertiesOrEmpty :: "json \<Rightarrow> error + json" where
  "propertiesOrEmpty f =
     (if f = JNull then Inl TypeError
      else Inr (case orElse (get f ''properties'') (Some (JObj [])) of
                  Some p \<Rightarrow> p | None \<Rightarrow> JObj []))"

text \<open>\<^verbatim>\<open>allFeatures.filter((f) => passesFilters(f.properties || {}))\<close>, with the
  predicate of the script as \<open>pass\<close>: the new array, or the error of the first feature
  whose properties cannot be read.\<close>

fun filterFeatures :: "(json \<Rightarrow> bool) \<Rightarrow> json list \<Rightarrow> error + json list" where
  "filterFeatures pass [] = Inr []"
| "filterFeatures pass (f # fs) =
     (case propertiesOrEmpty f of
        Inl e \<Rightarrow> Inl e
      | Inr p \<Rightarrow>
          (case filterFeatures pass fs of
             Inl e \<Rightarrow> Inl e
           | Inr r \<Rightarrow> Inr (if pass p then f # r else r)))"

subsection \<open>docs/js/main\_mapbox.js\<close>

definition populateSelect :: "string \<Rightarrow> string list \<Rightarrow> string \<Rightarrow> page \<Rightarrow> page" where
  "populateSelect ident vals allLabel s =
     (case inputs s ident of
        None \<Rightarrow> s
      | Some current \<Rightarrow>
          s\<lparr> selectOptions := (selectOptions s)(ident := ([], allLabel) # map (\<lambda>v. (v, v)) vals),
             inputs := (inputs s)(ident \<mapsto> (if current \<in> set vals then current else [])) \<rparr>)"

definition setSourceData :: "json list \<Rightarrow> page \<Rightarrow> page" where
  "setSourceData features s =
     (case tourSource s of None \<Rightarrow> s | Some old \<Rightarrow> s\<lparr> tourSource := Some features \<rparr>)"

definition applyFiltersAndRender :: "page \<Rightarrow> outcome" where
  "applyFiltersAndRender s =
     (case filterFeatures (passesFilters (inputs s)) (allFeatures s) of
        Inl e \<Rightarrow> (s, Some e)
      | Inr filtered \<Rightarrow> (setSourceData filtered s, None))"

text \<open>\<^verbatim>\<open>if (b && !b.isEmpty?.()) map.fitBounds(b, { padding: 60, duration: d })\<close>\<close>

definition fitIfAny :: "lngLatBounds option \<Rightarrow> nat \<Rightarrow> page \<Rightarrow> page" where
  "fitIfAny b duration s =
     (case b of
        None \<Rightarrow> s
      | Some bb \<Rightarrow> if isEmpty bb then s else s\<lparr> fitCalls := fitCalls s @ [(bb, 60, duration)] \<rparr>)"

text \<open>The click handler of the \<^verbatim>\<open>fit\<close> button in \<^verbatim>\<open>wireFilterControls\<close>.\<close>

definition fitClick :: "(int \<times> int \<Rightarrow> bool) \<Rightarrow> page \<Rightarrow> outcome" where
  "fitClick valid s =
     (case filterFeatures (passesFilters (inputs s)) (allFeatures s) of
        Inl e \<Rightarrow> (s, Some e)
      | Inr filtered \<Rightarrow>
          (case boundsForFeatures valid filtered of
             Inl e \<Rightarrow> (s, Some e)
           | Inr b \<Rightarrow> (fitIfAny b 400 s, None)))"

text \<open>What \<^verbatim>\<open>await fetch(...)\<close> and \<^verbatim>\<open>await res.json()\<close> can give: the request is
  rejected (a network error), or it resolves with the flag \<^verbatim>\<open>res.ok\<close> and the parsed
  body (\<open>None\<close> when the body is not JSON).\<close>

datatype fetched = Rejected | Resolved bool "json option"

text \<open>\<^verbatim>\<open>(gj.features || []).filter(Boolean)\<close>: \<^verbatim>\<open>gj.features\<close> throws on \<^verbatim>\<open>null\<close>, and
  only an array has \<^verbatim>\<open>filter\<close>.\<close>

definition loadedFeatures :: "json \<Rightarrow> error + json list" where
  "loadedFeatures gj =
     (if gj = JNull then Inl TypeError
      else (case orElse (get gj ''features'') (Some (JArr [])) of
              Some (JArr fs) \<Rightarrow> Inr (filter truthy fs)
            | _ \<Rightarrow> Inl TypeError))"

text \<open>The \<^verbatim>\<open>try\<close> block of \<^verbatim>\<open>loadGeoJSON\<close> from \<^verbatim>\<open>res.json()\<close> on.\<close>

definition loadBody :: "(string \<Rightarrow> string \<Rightarrow> int) \<Rightarrow> (int \<times> int \<Rightarrow> bool) \<Rightarrow> json \<Rightarrow> page \<Rightarrow> outcome" where
  "loadBody cmp valid gj s =
     (case loadedFeatures gj of
        Inl e \<Rightarrow> (s, Some e)
      | Inr fs \<Rightarrow>
          (let s1 = s\<lparr> allFeatures := fs \<rparr>;
               props = map (\<lambda>f. case orElse (get f ''properties'') (Some (JObj [])) of
                                   Some p \<Rightarrow> p | None \<Rightarrow> JObj []) fs;
               provinces = uniqSorted cmp (map (\<lambda>p. String_js (get p ''province'')) props);
               regions = uniqSorted cmp (map (\<lambda>p. String_js (get p ''region'')) props);
               s2 = populateSelect ''province'' provinces ''All provinces'' s1;
               s3 = populateSelect ''region'' regions ''All regions'' s2
           in (case applyFiltersAndRender s3 of
                 (s4, Some e) \<Rightarrow> (s4, Some e)
               | (s4, None) \<Rightarrow>
                   (case boundsForFeatures valid (allFeatures s4) of
                      Inl e \<Rightarrow> (s4, Some e)
                    | Inr b \<Rightarrow> (fitIfAny b 0 s4, None)))))"

definition loadGeoJSON :: "(string \<Rightarrow> string \<Rightarrow> int) \<Rightarrow> (int \<times> int \<Rightarrow> bool) \<Rightarrow> fetched \<Rightarrow> page \<Rightarrow> outcome" where
  "loadGeoJSON cmp valid res s =
     (let s0 = s\<lparr> fetchCount := fetchCount s + 1 \<rparr>
      in case res of
           Rejected \<Rightarrow> (s0\<lparr> consoleErrors := consoleErrors s0 @ [NetworkFailure] \<rparr>, None)
         | Resolved ok body \<Rightarrow>
             if \<not> ok then (s0, None)
             else (case body of
                     None \<Rightarrow> (s0\<lparr> consoleErrors := consoleErrors s0 @ [SyntaxError] \<rparr>, None)
                   | Some gj \<Rightarrow>
                       (case loadBody cmp valid gj s0 of
                          (s1, Some e) \<Rightarrow> (s1\<lparr> consoleErrors := consoleErrors s1 @ [e] \<rparr>, None)
                        | (s1, None) \<Rightarrow> (s1, None))))"


subsection \<open>docs/js/main.js\<close>

text \<open>The card that \<^verbatim>\<open>renderCards\<close> builds for one feature's properties.
  \<^verbatim>\<open>addChip\<close> drops a falsy text other than the number 0.\<close>

definition addChip :: "json option \<Rightarrow> string list \<Rightarrow> string list" where
  "addChip text cs = (if \<not> truthyV text \<and> text \<noteq> Some (JNum 0) then cs else cs @ [String_js text])"

definition cardFor :: "json \<Rightarrow> card" where
  "cardFor p =
     \<lparr> coverImage =
         (if truthyV (get p ''cover'')
          then Some (String_js (orElse (get p ''title'') (Some (JStr ''Tour cover''))),
                     String_js (get p ''cover''))
          else None),
       coverText = (if truthyV (get p ''cover'') then [] else ''No cover''),
       titleText = String_js (orElse (orElse (get p ''title'') (get p ''slug''))
                                (Some (JStr ''Untitled tour''))),
       subtitleText =
         (let t = String_js (orElse (orElse (get p ''region'') (get p ''subtitle'')) (Some (JStr [])))
          in if t = [] then None else Some t),
       chips =
         (let c1 = addChip (get p ''activity'') [];
              c2 = addChip (get p ''difficulty'') c1;
              c3 = (if \<not> nullish (get p ''vert_m'')
                    then addChip (Some (JStr (String_js (get p ''vert_m'') @ '' m''))) c2 else c2)
          in if \<not> nullish (get p ''distance_km'')
             then addChip (Some (JStr (String_js (get p ''distance_km'') @ '' km''))) c3 else c3),
       clickTarget = p \<rparr>"

text \<open>The loop of \<^verbatim>\<open>renderCards\<close>: the cards appended so far, and the error if reading a
  feature's properties throws.\<close>

fun cardsLoop :: "card list \<Rightarrow> json list \<Rightarrow> card list \<times> error option" where
  "cardsLoop acc [] = (acc, None)"
| "cardsLoop acc (f # fs) =
     (case propertiesOrEmpty f of
        Inl e \<Rightarrow> (acc, Some e)
      | Inr p \<Rightarrow> cardsLoop (acc @ [cardFor p]) fs)"

definition renderCards :: "json list \<Rightarrow> page \<Rightarrow> outcome" where
  "renderCards features s =
     (if grid s = None \<or> countLabel s = None then (s, None)
      else (case cardsLoop [] features of
              (cards, Some e) \<Rightarrow> (s\<lparr> grid := Some cards \<rparr>, Some e)
            | (cards, None) \<Rightarrow>
                (s\<lparr> grid := Some cards,
                    countLabel := Some (decimal (length features) @ '' tours shown'') \<rparr>, None)))"

text \<open>\<^verbatim>\<open>renderMap\<close>: the previous layer is removed and \<^verbatim>\<open>geoLayer\<close> set to
  \<^verbatim>\<open>null\<close>; then \<^verbatim>\<open>L.geoJSON\<close> builds a layer of exactly the given features, which
  becomes \<^verbatim>\<open>geoLayer\<close>. Leaflet throws on a collection it cannot draw (a geometry without
  coordinates, for one): \<open>draws\<close> says which collections it accepts. When it throws,
  \<^verbatim>\<open>geoLayer\<close> stays \<^verbatim>\<open>null\<close>.\<close>

definition renderMap :: "(json list \<Rightarrow> bool) \<Rightarrow> json list \<Rightarrow> page \<Rightarrow> outcome" where
  "renderMap draws features s =
     (if \<not> leafletMap s then (s, None)
      else if draws features then (s\<lparr> geoLayer := Some features \<rparr>, None)
      else (s\<lparr> geoLayer := None \<rparr>, Some LibraryError))"

definition applyFiltersAndRender_main :: "(json list \<Rightarrow> bool) \<Rightarrow> page \<Rightarrow> outcome" where
  "applyFiltersAndRender_main draws s =
     (case filterFeatures (passesFilters_main (inputs s)) (allFeatures s) of
        Inl e \<Rightarrow> (s, Some e)
      | Inr filtered \<Rightarrow>
          (case renderCards filtered s of
             (s1, Some e) \<Rightarrow> (s1, Some e)
           | (s1, None) \<Rightarrow> renderMap draws filtered s1))"

text \<open>\<^verbatim>\<open>if (count) count.textContent = `Failed to load ${DATA_URL}`\<close>\<close>

definition reportFailure :: "page \<Rightarrow> page" where
  "reportFailure s =
     (case countLabel s of
        None \<Rightarrow> s
      | Some old \<Rightarrow> s\<lparr> countLabel := Some ''Failed to load data/tours.geojson'' \<rparr>)"

text \<open>\<^verbatim>\<open>loadGeoJSON\<close> of docs/js/main.js. The initial fit that follows a successful load
  is a call into Leaflet inside a \<^verbatim>\<open>try\<close> whose \<^verbatim>\<open>catch\<close> is empty; it reads the store
  and writes nothing of the page.\<close>

definition loadGeoJSON_main :: "(json list \<Rightarrow> bool) \<Rightarrow> fetched \<Rightarrow> page \<Rightarrow> outcome" where
  "loadGeoJSON_main draws res s =
     (let s0 = s\<lparr> fetchCount := fetchCount s + 1 \<rparr>;
          caught = (\<lambda>s' e. (reportFailure s')\<lparr> consoleErrors := consoleErrors s' @ [e] \<rparr>)
      in case res of
           Rejected \<Rightarrow> (caught s0 NetworkFailure, None)
         | Resolved ok body \<Rightarrow>
             if \<not> ok then (reportFailure s0, None)
             else (case body of
                     None \<Rightarrow> (caught s0 SyntaxError, None)
                   | Some gj \<Rightarrow>
                       (case loadedFeatures gj of
                          Inl e \<Rightarrow> (caught s0 e, None)
                        | Inr fs \<Rightarrow>
                            (case applyFiltersAndRender_main draws (s0\<lparr> allFeatures := fs \<rparr>) of
                               (s1, Some e) \<Rightarrow> (caught s1 e, None)
                             | (s1, None) \<Rightarrow> (s1, None)))))"


section \<open>Guards and event sequences\<close>

text \<open>The guard of the loop of \<^verbatim>\<open>boundsForFeatures\<close>: the feature has a truthy
  \<^verbatim>\<open>geometry\<close> with truthy \<^verbatim>\<open>coordinates\<close>, so it is not skipped by \<^verbatim>\<open>continue\<close>.\<close>

definition hasCoordinates :: "json \<Rightarrow> bool" where
  "hasCoordinates f =
     (let g = getOpt (Some f) ''geometry''
      in truthyV g \<and> truthyV (getOpt g ''coordinates''))"

text \<open>A failed fetch: the request is rejected, or \<^verbatim>\<open>res.ok\<close> is false.\<close>

definition fetchFailed :: "fetched \<Rightarrow> bool" where
  "fetchFailed res = (case res of Rejected \<Rightarrow> True | Resolved ok body \<Rightarrow> \<not> ok)"

text \<open>A sequence of filter operations: for each state of the controls in turn, the
  user sets the controls and the \<^verbatim>\<open>input\<close> or \<^verbatim>\<open>change\<close> listener runs
  \<^verbatim>\<open>applyFiltersAndRender\<close>.\<close>

fun filterOperations :: "controls list \<Rightarrow> page \<Rightarrow> page" where
  "filterOperations [] s = s"
| "filterOperations (ui # uis) s =
     filterOperations uis (fst (applyFiltersAndRender (s\<lparr> inputs := ui \<rparr>)))"

fun filterOperations_main :: "(json list \<Rightarrow> bool) \<Rightarrow> controls list \<Rightarrow> page \<Rightarrow> page" where
  "filterOperations_main draws [] s = s"
| "filterOperations_main draws (ui # uis) s =
     filterOperations_main draws uis (fst (applyFiltersAndRender_main draws (s\<lparr> inputs := ui \<rparr>)))"

section \<open>Notions of the specification\<close>

text \<open>The classification of a direction value in the words of the specification, on the
  value already trimmed and lower-cased: ascent-like values and anything unknown take the
  ascent colour, descent-like values the second colour, traverse-like values the third.\<close>

definition spec_directionColor :: "string \<Rightarrow> string" where
  "spec_directionColor d =
     (if d \<in> {''up'', ''ascent''} then ''#1f6feb''
      else if d \<in> {''down'', ''descent''} then ''#b64a4a''
      else if d \<in> {''traverse'', ''cross''} then ''#b000b5''
      else ''#1f6feb'')"

text \<open>What the predicates compare, spelled out: the text of a control (empty when the
  page lacks it) and the text of a property (empty when it is absent or \<^verbatim>\<open>null\<close>, else
  its conversion to a string).\<close>

definition controlText :: "controls \<Rightarrow> string \<Rightarrow> string" where
  "controlText ui ident = (case ui ident of None \<Rightarrow> [] | Some w \<Rightarrow> w)"

definition propertyText :: "json \<Rightarrow> string \<Rightarrow> string" where
  "propertyText p k = (case get p k of None \<Rightarrow> [] | Some v \<Rightarrow> if v = JNull then [] else toString v)"

text \<open>The entity of a character in HTML text, and the escape of a character in a
  double-quoted attribute, as the claim names them.\<close>

definition htmlEntity :: "char \<Rightarrow> string" where
  "htmlEntity c =
     (if c = CHR ''&'' then ''&amp;''
      else if c = CHR ''<'' then ''&lt;''
      else if c = CHR ''>'' then ''&gt;''
      else if c = CHR 0x22 then ''&quot;''
      else if c = CHR 0x27 then ''&#039;''
      else [c])"

definition attrEscape :: "char \<Rightarrow> string" where
  "attrEscape c = (if c = CHR 0x22 then ''%22'' else [c])"

text \<open>A string without the four characters that \<^verbatim>\<open>escapeHtml\<close> replaces besides the
  ampersand.\<close>

definition noMarkup :: "string \<Rightarrow> bool" where
  "noMarkup s = (\<forall>c \<in> set s. c \<notin> {CHR ''<'', CHR ''>'', CHR 0x22, CHR 0x27})"

section \<open>Sample data\<close>

definition tourA :: json where
  "tourA = JObj [(''title'', JStr ''a''), (''region'', JStr ''b'')]"

definition tourGin :: json where
  "tourGin = JObj [(''title'', JStr ''Gin Peak''), (''region'', JStr ''Whistler''),
                   (''province'', JStr ''BC''), (''slug'', JStr ''ginpeak-up'')]"

definition tourAdvanced :: json where
  "tourAdvanced = JObj [(''title'', JStr ''Couloir''), (''difficulty'', JStr ''advanced'')]"

definition tourIntermediate :: json where
  "tourIntermediate = JObj [(''title'', JStr ''Glade''), (''difficulty'', JStr ''intermediate'')]"

definition tourPadded :: json where
  "tourPadded = JObj [(''title'', JStr ''Bowl''), (''difficulty'', JStr ''advanced ''),
                      (''province'', JStr ('' bc'' @ [CHR 0x09]))]"

definition selectBC :: controls where
  "selectBC = Map.empty(''q'' \<mapsto> [], ''province'' \<mapsto> ''BC'', ''region'' \<mapsto> [])"

definition searchCrossField :: controls where
  "searchCrossField = Map.empty(''q'' \<mapsto> ''a b'')"

definition searchPeak :: controls where
  "searchPeak = Map.empty(''q'' \<mapsto> ''PEAK'')"

definition searchZermatt :: controls where
  "searchZermatt = Map.empty(''q'' \<mapsto> ''Zermatt'')"

definition selectAdvanced :: controls where
  "selectAdvanced = Map.empty(''q'' \<mapsto> [], ''difficulty'' \<mapsto> ''Advanced'', ''activity'' \<mapsto> [])"

definition noControls :: controls where
  "noControls = Map.empty"

definition tourUpperAscent :: json where
  "tourUpperAscent = JObj [(''title'', JStr ''Ridge''), (''direction'', JStr ''ASCENT'')]"

definition tourTypoAscent :: json where
  "tourTypoAscent = JObj [(''title'', JStr ''Col''), (''direcrtion'', JStr ''Ascent'')]"

definition tourNumberDirection :: json where
  "tourNumberDirection = JObj [(''title'', JStr ''Five''), (''direction'', JNum 5)]"

definition tourPaddedDown :: json where
  "tourPaddedDown = JObj [(''title'', JStr ''Chute''), (''direction'', JStr '' down '')]"

definition tourEmptyDirection :: json where
  "tourEmptyDirection = JObj [(''direction'', JStr []), (''direcrtion'', JStr ''down'')]"

definition tourWithPage :: json where
  "tourWithPage = JObj [(''page'', JStr ''https://example.org/t.html''), (''slug'', JStr ''x'')]"

text \<open>A comparator that ignores case, standing for the collation, and two map libraries:
  one refuses latitudes outside of -90 to 90, one accepts every point.\<close>

fun compareCodes :: "nat list \<Rightarrow> nat list \<Rightarrow> int" where
  "compareCodes [] [] = 0"
| "compareCodes [] (y # ys) = - 1"
| "compareCodes (x # xs) [] = 1"
| "compareCodes (x # xs) (y # ys) =
     (if x < y then - 1 else if y < x then 1 else compareCodes xs ys)"

definition sampleCompare :: "string \<Rightarrow> string \<Rightarrow> int" where
  "sampleCompare a b = compareCodes (map of_char (toLowerCase a)) (map of_char (toLowerCase b))"

definition latitudeInRange :: "int \<times> int \<Rightarrow> bool" where
  "latitudeInRange pt = (- 90 \<le> snd pt \<and> snd pt \<le> 90)"

definition acceptAll :: "int \<times> int \<Rightarrow> bool" where
  "acceptAll pt = True"

text \<open>A Leaflet that draws a collection unless one of its features has a geometry without
  coordinates.\<close>

definition leafletDraws :: "json list \<Rightarrow> bool" where
  "leafletDraws fs =
     list_all (\<lambda>f. nullish (getOpt (Some f) ''geometry'') \<or>
                     truthyV (getOpt (getOpt (Some f) ''geometry'') ''coordinates'')) fs"

text \<open>Pages as the two scripts find them when \<^verbatim>\<open>loadGeoJSON\<close> starts, and
  documents.\<close>

definition mapboxPage :: page where
  "mapboxPage =
     \<lparr> allFeatures = [],
       inputs = Map.empty(''q'' \<mapsto> [], ''province'' \<mapsto> [], ''region'' \<mapsto> []),
       selectOptions = (\<lambda>ident. []),
       countLabel = Some [],
       grid = None,
       leafletMap = False,
       geoLayer = None,
       tourSource = Some [],
       fitCalls = [],
       consoleErrors = [],
       fetchCount = 0 \<rparr>"

definition mainPage :: page where
  "mainPage =
     \<lparr> allFeatures = [],
       inputs = Map.empty(''q'' \<mapsto> [], ''difficulty'' \<mapsto> [], ''activity'' \<mapsto> []),
       selectOptions = (\<lambda>ident. []),
       countLabel = Some [],
       grid = Some [],
       leafletMap = True,
       geoLayer = None,
       tourSource = None,
       fitCalls = [],
       consoleErrors = [],
       fetchCount = 0 \<rparr>"

definition collectionNoProvince :: json where
  "collectionNoProvince =
     JObj [(''type'', JStr ''FeatureCollection''),
           (''features'',
            JArr [JObj [(''type'', JStr ''Feature''),
                        (''properties'', JObj [(''title'', JStr ''Gin Peak''), (''region'', JStr ''Whistler'')]),
                        (''geometry'', JObj [(''type'', JStr ''Point''), (''coordinates'', JArr [JNum (- 123), JNum 50])])]])]"

definition featureGin :: json where
  "featureGin =
     JObj [(''type'', JStr ''Feature''), (''properties'', tourGin),
           (''geometry'', JObj [(''type'', JStr ''LineString''),
                                (''coordinates'', JArr [JArr [JNum (- 123), JNum 50],
                                                        JArr [JNum (- 122), JNum 51]])])]"

definition featureNoGeometry :: json where
  "featureNoGeometry = JObj [(''type'', JStr ''Feature''), (''properties'', tourA)]"

definition featureNoCoordinates :: json where
  "featureNoCoordinates =
     JObj [(''type'', JStr ''Feature''), (''properties'', tourAdvanced),
           (''geometry'', JObj [(''type'', JStr ''Point'')])]"

definition degeneratePage :: page where
  "degeneratePage = mapboxPage\<lparr> allFeatures := [featureNoGeometry, featureNoCoordinates] \<rparr>"

definition hostileTour :: json where
  "hostileTour =
     JObj [(''title'', JStr ''<img src=x onerror=alert(1)>''),
           (''region'', JStr (''O'' @ [CHR 0x27] @ ''Brien & Co'')),
           (''vert_m'', JNum 1200),
           (''gpx'', JStr (''a.gpx'' @ [CHR 0x22] @ '' onclick='' @ [CHR 0x22] @ ''x''))]"

definition loadedPage :: page where
  "loadedPage = mapboxPage\<lparr> allFeatures := [featureGin, featureNoGeometry] \<rparr>"

definition loadedMainPage :: page where
  "loadedMainPage = mainPage\<lparr> allFeatures := [featureGin, featureNoGeometry] \<rparr>"

definition collectionNoCoordinates :: json where
  "collectionNoCoordinates =
     JObj [(''type'', JStr ''FeatureCollection''), (''features'', JArr [featureNoCoordinates])]"

definition undrawablePage :: page where
  "undrawablePage = mainPage\<lparr> allFeatures := [featureGin, featureNoCoordinates] \<rparr>"

section \<open>Strings: substring, trim and lower case\<close>

lemma includes_js_sublist: "includes_js h q \<longleftrightarrow> sublist q h"
  by (induction h) (auto simp: sublist_Cons_right)

lemma norm_undefined [simp]: "norm None = []"
  by (simp add: norm_def coalesce_def trim_def toLowerCase_def)

lemma norm_empty_string [simp]: "norm (Some (JStr [])) = []"
  by (simp add: norm_def coalesce_def trim_def toLowerCase_def)

lemma norm_string: "norm (Some (JStr s)) = toLowerCase (trim s)"
  by (simp add: norm_def coalesce_def)

lemma norm_unpadded:
  "trim v = v \<Longrightarrow> trim w = w \<Longrightarrow>
   norm (Some (JStr v)) = norm (Some (JStr w)) \<longleftrightarrow> toLowerCase v = toLowerCase w"
  by (simp add: norm_string)

lemma norm_control_text: "norm (controlValue ui k) = toLowerCase (trim (controlText ui k))"
  by (cases "ui k") (simp_all add: controlValue_def controlText_def norm_string trim_def toLowerCase_def)

lemma norm_property_text: "norm (get p k) = toLowerCase (trim (propertyText p k))"
proof (cases "get p k")
  case None
  then show ?thesis by (simp add: propertyText_def trim_def toLowerCase_def)
next
  case (Some v)
  then show ?thesis
    by (cases v) (simp_all add: propertyText_def norm_def coalesce_def trim_def toLowerCase_def)
qed

lemma norm_control_unset:
  "ui k = None \<or> ui k = Some [] \<Longrightarrow> norm (controlValue ui k) = []"
  by (auto simp: controlValue_def)

lemma toLowerChar_idem [simp]: "toLowerChar (toLowerChar c) = toLowerChar c"
proof -
  have "of_char c < (256::nat)" by simp
  then show ?thesis
    by (auto simp: toLowerChar_def Let_def)
qed

lemma toLowerCase_idem [simp]: "toLowerCase (toLowerCase s) = toLowerCase s"
  by (simp add: toLowerCase_def)

lemma isWhiteSpace_toLowerChar [simp]: "isWhiteSpace (toLowerChar c) = isWhiteSpace c"
proof -
  have "of_char c < (256::nat)" by simp
  then show ?thesis
    by (auto simp: isWhiteSpace_def toLowerChar_def Let_def)
qed

lemma dropWhile_ws_map_lower:
  "dropWhile isWhiteSpace (map toLowerChar s) = map toLowerChar (dropWhile isWhiteSpace s)"
  by (induction s) auto

lemma trim_toLowerCase: "trim (toLowerCase s) = toLowerCase (trim s)"
  by (simp add: trim_def toLowerCase_def dropWhile_ws_map_lower rev_map)

lemma sublist_drop_ws_prefix:
  "sublist z (w @ m) \<Longrightarrow> z \<noteq> [] \<Longrightarrow> \<not> isWhiteSpace (hd z) \<Longrightarrow> \<forall>c\<in>set w. isWhiteSpace c
   \<Longrightarrow> sublist z m"
proof (induction w)
  case Nil
  then show ?case by simp
next
  case (Cons c w)
  from Cons.prems have "prefix z (c # w @ m) \<or> sublist z (w @ m)"
    by (simp add: sublist_Cons_right)
  moreover have "\<not> prefix z (c # w @ m)"
    using Cons.prems by (cases z) auto
  ultimately show ?case using Cons by simp
qed

lemma sublist_dropWhile_ws:
  assumes "sublist z ys" "z \<noteq> []" "\<not> isWhiteSpace (hd z)"
  shows "sublist z (dropWhile isWhiteSpace ys)"
proof -
  have "ys = takeWhile isWhiteSpace ys @ dropWhile isWhiteSpace ys" by simp
  with assms(1) have "sublist z (takeWhile isWhiteSpace ys @ dropWhile isWhiteSpace ys)" by simp
  then show ?thesis
    using assms(2,3) by (rule sublist_drop_ws_prefix) (auto dest: set_takeWhileD)
qed

lemma sublist_trim_right:
  assumes "sublist z ys" "z \<noteq> []" "\<not> isWhiteSpace (hd z)" "\<not> isWhiteSpace (last z)"
  shows "sublist z (trim ys)"
proof -
  have 1: "sublist z (dropWhile isWhiteSpace ys)"
    using assms(1-3) by (rule sublist_dropWhile_ws)
  then have "sublist (rev z) (rev (dropWhile isWhiteSpace ys))" by simp
  moreover have "rev z \<noteq> []" "\<not> isWhiteSpace (hd (rev z))"
    using assms(2,4) by (simp_all add: hd_rev)
  ultimately have "sublist (rev z) (dropWhile isWhiteSpace (rev (dropWhile isWhiteSpace ys)))"
    by (rule sublist_dropWhile_ws)
  then have "sublist (rev (rev z)) (rev (dropWhile isWhiteSpace (rev (dropWhile isWhiteSpace ys))))"
    by (simp only: sublist_rev)
  then show ?thesis by (simp add: trim_def)
qed

lemma trim_sublist: "sublist (trim xs) xs"
proof -
  have "sublist (dropWhile isWhiteSpace (rev (dropWhile isWhiteSpace xs))) (rev (dropWhile isWhiteSpace xs))"
    by (rule suffix_imp_sublist) (rule suffix_dropWhile)
  then have "sublist (trim xs) (dropWhile isWhiteSpace xs)"
    unfolding trim_def by (metis rev_rev_ident sublist_rev)
  moreover have "sublist (dropWhile isWhiteSpace xs) xs"
    by (rule suffix_imp_sublist) (rule suffix_dropWhile)
  ultimately show ?thesis by (rule sublist_order.order_trans)
qed

lemma trim_ends:
  assumes "trim xs \<noteq> []"
  shows "\<not> isWhiteSpace (hd (trim xs))" "\<not> isWhiteSpace (last (trim xs))"
proof -
  let ?a = "dropWhile isWhiteSpace xs"
  let ?b = "dropWhile isWhiteSpace (rev ?a)"
  from assms have b: "?b \<noteq> []" by (simp add: trim_def)
  then have a: "?a \<noteq> []" by (metis dropWhile.simps(1) rev.simps(1))
  have "\<not> isWhiteSpace (hd ?b)" using b by (rule hd_dropWhile)
  then show "\<not> isWhiteSpace (last (trim xs))" using b by (simp add: trim_def last_rev)
  have "suffix ?b (rev ?a)" by (rule suffix_dropWhile)
  then obtain u where u: "rev ?a = u @ ?b" by (auto simp: suffix_def)
  then have "last (rev ?a) = last ?b" using b by (metis last_appendR)
  then have "last ?b = hd ?a" using a by (simp add: last_rev)
  moreover have "\<not> isWhiteSpace (hd ?a)" using a by (rule hd_dropWhile)
  ultimately show "\<not> isWhiteSpace (hd (trim xs))" using b by (simp add: trim_def hd_rev)
qed

lemma sublist_trim_mono:
  assumes "sublist xs ys"
  shows "sublist (trim xs) (trim ys)"
proof (cases "trim xs = []")
  case True
  then show ?thesis by simp
next
  case False
  have "sublist (trim xs) ys"
    using trim_sublist assms by (rule sublist_order.order_trans)
  then show ?thesis
    using False trim_ends [OF False] by (rule sublist_trim_right)
qed

lemma sublist_separator:
  assumes "sublist z (a @ c # b)" "c \<notin> set z"
  shows "sublist z a \<or> sublist z b"
proof -
  from assms(1) consider "sublist z a" | "sublist z (c # b)"
    | z1 z2 where "z = z1 @ z2" "suffix z1 a" "prefix z2 (c # b)"
    by (auto simp: sublist_append)
  then show ?thesis
  proof cases
    case 1
    then show ?thesis by simp
  next
    case 2
    then have "prefix z (c # b) \<or> sublist z b" by (simp add: sublist_Cons_right)
    moreover have "prefix z (c # b) \<Longrightarrow> z = []"
      using assms(2) by (cases z) auto
    ultimately show ?thesis by auto
  next
    case 3
    from 3(3) assms(2) 3(1) have "z2 = []" by (cases z2) auto
    with 3 show ?thesis by auto
  qed
qed

lemma sublist_five_fields:
  assumes "sublist z (a @ c # b @ c # d @ c # e @ c # f)" "c \<notin> set z"
  shows "sublist z a \<or> sublist z b \<or> sublist z d \<or> sublist z e \<or> sublist z f"
proof -
  from assms have "sublist z a \<or> sublist z (b @ c # d @ c # e @ c # f)"
    by (rule sublist_separator)
  moreover have "sublist z b \<or> sublist z (d @ c # e @ c # f)" if "sublist z (b @ c # d @ c # e @ c # f)"
    using that assms(2) by (rule sublist_separator)
  moreover have "sublist z d \<or> sublist z (e @ c # f)" if "sublist z (d @ c # e @ c # f)"
    using that assms(2) by (rule sublist_separator)
  moreover have "sublist z e \<or> sublist z f" if "sublist z (e @ c # f)"
    using that assms(2) by (rule sublist_separator)
  ultimately show ?thesis by blast
qed

lemma norm_query_in_norm_title:
  assumes "sublist (toLowerCase query) (toLowerCase title)"
  shows "sublist (norm (Some (JStr query))) (norm (Some (JStr title)))"
proof -
  have "sublist (trim (toLowerCase query)) (trim (toLowerCase title))"
    using assms by (rule sublist_trim_mono)
  then show ?thesis by (simp only: norm_string trim_toLowerCase)
qed

section \<open>The filter predicate: lemmas\<close>

lemma passesFilters_iff:
  "passesFilters ui p \<longleftrightarrow>
     (norm (controlValue ui ''q'') = [] \<or> sublist (norm (controlValue ui ''q'')) (hayMapbox p)) \<and>
     (norm (controlValue ui ''province'') = [] \<or>
        norm (get p ''province'') = norm (controlValue ui ''province'')) \<and>
     (norm (controlValue ui ''region'') = [] \<or>
        norm (get p ''region'') = norm (controlValue ui ''region''))"
  by (auto simp: passesFilters_def Let_def includes_js_sublist)

lemma passesFilters_main_iff:
  "passesFilters_main ui p \<longleftrightarrow>
     (norm (controlValue ui ''q'') = [] \<or> sublist (norm (controlValue ui ''q'')) (hayMain p)) \<and>
     (norm (controlValue ui ''difficulty'') = [] \<or>
        norm (get p ''difficulty'') = norm (controlValue ui ''difficulty'')) \<and>
     (norm (controlValue ui ''activity'') = [] \<or>
        norm (get p ''activity'') = norm (controlValue ui ''activity''))"
  by (auto simp: passesFilters_main_def Let_def includes_js_sublist)

lemma filterFeatures_filter:
  "JNull \<notin> set fs \<Longrightarrow>
   filterFeatures pass fs =
     Inr (filter (\<lambda>f. pass (case orElse (get f ''properties'') (Some (JObj [])) of
                               Some p \<Rightarrow> p | None \<Rightarrow> JObj [])) fs)"
  by (induction fs) (auto simp: propertiesOrEmpty_def)

lemma filterFeatures_subset:
  "filterFeatures pass fs = Inr ys \<Longrightarrow> set ys \<subseteq> set fs"
  by (induction fs arbitrary: ys) (auto split: sum.splits if_splits)

lemma filterFeatures_no_null:
  "filterFeatures pass fs = Inr ys \<Longrightarrow> JNull \<notin> set fs"
  by (induction fs arbitrary: ys) (auto simp: propertiesOrEmpty_def split: sum.splits if_splits)

lemma filterFeatures_idem:
  "filterFeatures pass fs = Inr ys \<Longrightarrow> filterFeatures pass ys = Inr ys"
proof -
  assume a: "filterFeatures pass fs = Inr ys"
  then have n: "JNull \<notin> set fs" by (rule filterFeatures_no_null)
  with a have ys: "ys = filter (\<lambda>f. pass (case orElse (get f ''properties'') (Some (JObj [])) of
                               Some p \<Rightarrow> p | None \<Rightarrow> JObj [])) fs"
    by (simp add: filterFeatures_filter)
  from n ys have "JNull \<notin> set ys" by auto
  then show ?thesis by (subst filterFeatures_filter) (auto simp: ys)
qed

lemma hayMapbox_fields:
  assumes "sublist z (hayMapbox p)" "CHR '' '' \<notin> set z"
  shows "sublist z (norm (get p ''title'')) \<or> sublist z (norm (get p ''region'')) \<or>
         sublist z (norm (get p ''province'')) \<or> sublist z (norm (get p ''subtitle'')) \<or>
         sublist z (norm (get p ''country''))"
proof (rule sublist_five_fields [OF _ assms(2)])
  show "sublist z (norm (get p ''title'') @ CHR '' '' # norm (get p ''region'') @ CHR '' '' #
          norm (get p ''province'') @ CHR '' '' # norm (get p ''subtitle'') @ CHR '' '' #
          norm (get p ''country''))"
    using assms(1) by (simp add: hayMapbox_def)
qed

lemma hayMain_fields:
  assumes "sublist z (hayMain p)" "CHR '' '' \<notin> set z"
  shows "sublist z (norm (get p ''title'')) \<or> sublist z (norm (get p ''region'')) \<or>
         sublist z (norm (get p ''subtitle'')) \<or> sublist z (norm (get p ''activity'')) \<or>
         sublist z (norm (get p ''difficulty''))"
proof (rule sublist_five_fields [OF _ assms(2)])
  show "sublist z (norm (get p ''title'') @ CHR '' '' # norm (get p ''region'') @ CHR '' '' #
          norm (get p ''subtitle'') @ CHR '' '' # norm (get p ''activity'') @ CHR '' '' #
          norm (get p ''difficulty''))"
    using assms(1) by (simp add: hayMain_def)
qed

lemma title_in_hay:
  assumes "sublist z (norm (get p ''title''))"
  shows "sublist z (hayMapbox p) \<and> sublist z (hayMain p)"
proof -
  have "sublist (norm (get p ''title'')) (hayMapbox p)"
    unfolding hayMapbox_def by (rule sublist_append_rightI)
  moreover have "sublist (norm (get p ''title'')) (hayMain p)"
    unfolding hayMain_def by (rule sublist_append_rightI)
  ultimately show ?thesis using assms sublist_order.order_trans by blast
qed

section \<open>Direction to colour: lemmas\<close>

lemma norm_falsy_class:
  "\<not> truthyV v \<Longrightarrow> spec_directionColor (norm v) = ''#1f6feb''"
proof (cases v)
  case None
  then show ?thesis by (simp add: norm_def coalesce_def trim_def toLowerCase_def spec_directionColor_def)
next
  case (Some a)
  assume "\<not> truthyV v"
  with Some consider "a = JNull" | "a = JBool False" | "a = JNum 0" | "a = JStr []"
    by (cases a) auto
  then show ?thesis
  proof cases
    case 1
    have "spec_directionColor (norm (Some JNull)) = ''#1f6feb''" by code_simp
    with 1 Some show ?thesis by simp
  next
    case 2
    have "spec_directionColor (norm (Some (JBool False))) = ''#1f6feb''" by code_simp
    with 2 Some show ?thesis by simp
  next
    case 3
    have "spec_directionColor (norm (Some (JNum 0))) = ''#1f6feb''" by code_simp
    with 3 Some show ?thesis by simp
  next
    case 4
    have "spec_directionColor (norm (Some (JStr []))) = ''#1f6feb''" by code_simp
    with 4 Some show ?thesis by simp
  qed
qed

lemma trackColor_spec:
  "trackColorFromProps p = spec_directionColor (norm (orElse (orElse (getOpt p ''direction'') (getOpt p ''direcrtion'')) (Some (JStr []))))"
  by (simp add: trackColorFromProps_def spec_directionColor_def Let_def)

lemma trackColor_read:
  "trackColorFromProps p =
     spec_directionColor (norm (orElse (getOpt p ''direction'') (getOpt p ''direcrtion'')))"
proof (cases "truthyV (orElse (getOpt p ''direction'') (getOpt p ''direcrtion''))")
  case True
  then show ?thesis by (simp add: trackColor_spec orElse_def)
next
  case False
  have "norm (Some (JStr [])) = []" by (simp add: norm_def coalesce_def trim_def toLowerCase_def)
  then have "spec_directionColor (norm (Some (JStr []))) = ''#1f6feb''"
    by (simp add: spec_directionColor_def)
  with False norm_falsy_class [OF False] show ?thesis
    by (simp add: trackColor_spec orElse_def [of "orElse (getOpt p ''direction'') (getOpt p ''direcrtion'')"])
qed

section \<open>Bounds: lemmas\<close>

lemma boundsLoop_skip:
  "\<not> hasCoordinates f \<Longrightarrow> boundsLoop valid b (f # fs) = boundsLoop valid b fs"
  by (simp add: hasCoordinates_def Let_def)

lemma boundsLoop_filter:
  "boundsLoop valid b fs = boundsLoop valid b (filter hasCoordinates fs)"
proof (induction fs arbitrary: b)
  case Nil
  then show ?case by simp
next
  case (Cons f fs)
  show ?case
  proof (cases "hasCoordinates f")
    case False
    then show ?thesis using Cons.IH by (simp add: boundsLoop_skip del: boundsLoop.simps)
  next
    case True
    then show ?thesis using Cons.IH
      by (simp add: hasCoordinates_def Let_def split: option.splits sum.splits)
  qed
qed

lemma boundsLoop_none:
  "\<forall>f\<in>set fs. \<not> hasCoordinates f \<Longrightarrow> boundsLoop valid b fs = Inr b"
  by (induction fs) (simp_all add: boundsLoop_skip del: boundsLoop.simps(2))

lemma extend_total_aux:
  "valid = (\<lambda>pt. True) \<Longrightarrow> \<exists>b'. extendBoundsWithCoords valid b c = Inr b'"
  "valid = (\<lambda>pt. True) \<Longrightarrow> \<exists>b'. extendEach valid b cs = Inr b'"
proof (induction valid b c and valid b cs rule: extendBoundsWithCoords_extendEach.induct)
  case (1 valid bounds coords)
  show ?case
  proof (cases "\<not> truthy coords \<or> (isNumber (index coords 0) \<and> isNumber (index coords 1))")
    case True
    then show ?thesis
      unfolding extendBoundsWithCoords.simps [of valid bounds coords]
      using "1.prems" by (auto simp: bounds_extend_def)
  next
    case False
    show ?thesis
    proof (cases coords)
      case (JArr cs)
      with False "1.IH" [of cs] "1.prems" show ?thesis
        unfolding extendBoundsWithCoords.simps [of valid bounds coords]
        by (auto simp: bounds_extend_def)
    qed (use False in \<open>auto simp: extendBoundsWithCoords.simps [of valid bounds]\<close>)
  qed
next
  case (2 valid bounds)
  then show ?case by simp
next
  case (3 valid bounds c cs)
  from "3.IH"(1) [OF "3.prems"] obtain b1 where b1: "extendBoundsWithCoords valid bounds c = Inr b1"
    by blast
  from "3.IH"(2) [OF b1 "3.prems"] b1 show ?case by simp
qed

lemma extend_total:
  assumes "\<forall>pt. valid pt"
  shows "\<exists>b'. extendBoundsWithCoords valid b c = Inr b'"
proof -
  have "valid = (\<lambda>pt. True)" by (rule ext) (simp add: assms)
  then show ?thesis by (rule extend_total_aux(1))
qed

lemma boundsLoop_total:
  "(\<forall>pt. valid pt) \<Longrightarrow> \<exists>r. boundsLoop valid b fs = Inr r"
proof (induction fs arbitrary: b)
  case Nil
  then show ?case by simp
next
  case (Cons f fs)
  show ?case
  proof (cases "hasCoordinates f")
    case False
    then show ?thesis using Cons.IH [OF Cons.prems] by (simp add: boundsLoop_skip del: boundsLoop.simps)
  next
    case True
    then have "truthyV (getOpt (getOpt (Some f) ''geometry'') ''coordinates'')"
      by (simp add: hasCoordinates_def Let_def)
    then obtain coords where c: "getOpt (getOpt (Some f) ''geometry'') ''coordinates'' = Some coords"
      by (cases "getOpt (getOpt (Some f) ''geometry'') ''coordinates''") auto
    from Cons.prems obtain b1 where
      "extendBoundsWithCoords valid (case b of None \<Rightarrow> [] | Some b0 \<Rightarrow> b0) coords = Inr b1"
      using extend_total [of valid] by blast
    moreover from Cons.IH [OF Cons.prems] obtain r where "boundsLoop valid (Some b1) fs = Inr r" by blast
    ultimately show ?thesis using True c by (simp add: hasCoordinates_def Let_def)
  qed
qed

lemma fitClick_skipped:
  assumes "\<forall>f\<in>set (allFeatures s). f \<noteq> JNull \<and> \<not> hasCoordinates f"
  shows "fitClick valid s = (s, None)"
proof -
  from assms have "JNull \<notin> set (allFeatures s)" by auto
  then obtain ys where ys: "filterFeatures (passesFilters (inputs s)) (allFeatures s) = Inr ys"
    by (simp add: filterFeatures_filter)
  then have "set ys \<subseteq> set (allFeatures s)" by (rule filterFeatures_subset)
  with assms have "\<forall>f\<in>set ys. \<not> hasCoordinates f" by auto
  then have "boundsForFeatures valid ys = Inr None"
    by (simp add: boundsForFeatures_def boundsLoop_none)
  with ys show ?thesis by (simp add: fitClick_def fitIfAny_def)
qed

section \<open>Rendering: lemmas\<close>

lemma setSourceData_fields [simp]:
  "allFeatures (setSourceData fs s) = allFeatures s"
  "inputs (setSourceData fs s) = inputs s"
  by (simp_all add: setSourceData_def split: option.splits)

lemma setSourceData_twice [simp]:
  "setSourceData fs (setSourceData fs s) = setSourceData fs s"
  by (simp add: setSourceData_def split: option.splits)

lemma applyFiltersAndRender_fields:
  "allFeatures (fst (applyFiltersAndRender s)) = allFeatures s"
  "inputs (fst (applyFiltersAndRender s)) = inputs s"
  by (simp_all add: applyFiltersAndRender_def split: sum.splits)

lemma applyFiltersAndRender_idem:
  "applyFiltersAndRender (fst (applyFiltersAndRender s)) = applyFiltersAndRender s"
  by (simp add: applyFiltersAndRender_def split: sum.splits)

lemma cardsLoop_ok:
  "JNull \<notin> set fs \<Longrightarrow> \<exists>cards. cardsLoop acc fs = (cards, None)"
  by (induction fs arbitrary: acc) (auto simp: propertiesOrEmpty_def)

lemma renderCards_fields [simp]:
  "allFeatures (fst (renderCards fs s)) = allFeatures s"
  "inputs (fst (renderCards fs s)) = inputs s"
  by (simp_all add: renderCards_def split: prod.splits option.splits)

lemma renderMap_fields [simp]:
  "allFeatures (fst (renderMap draws fs s)) = allFeatures s"
  "inputs (fst (renderMap draws fs s)) = inputs s"
  by (simp_all add: renderMap_def)

lemma renderMap_layer_only:
  "fst (renderMap draws fs s) = s\<lparr> geoLayer := geoLayer (fst (renderMap draws fs s)) \<rparr>"
  by (simp add: renderMap_def)

lemma renderMap_idem:
  "renderMap draws fs (fst (renderMap draws fs s)) = renderMap draws fs s"
  by (simp add: renderMap_def)

lemma applyFiltersAndRender_main_fields:
  "allFeatures (fst (applyFiltersAndRender_main draws s)) = allFeatures s"
  "inputs (fst (applyFiltersAndRender_main draws s)) = inputs s"
proof -
  have "allFeatures (fst (applyFiltersAndRender_main draws s)) = allFeatures s \<and>
        inputs (fst (applyFiltersAndRender_main draws s)) = inputs s"
  proof (cases "filterFeatures (passesFilters_main (inputs s)) (allFeatures s)")
    case (Inl e)
    then show ?thesis by (simp add: applyFiltersAndRender_main_def)
  next
    case (Inr filtered)
    obtain s1 err where r: "renderCards filtered s = (s1, err)" by (cases "renderCards filtered s")
    then have "allFeatures s1 = allFeatures s \<and> inputs s1 = inputs s"
      using renderCards_fields [of filtered s] by simp
    with Inr r show ?thesis
      by (cases err) (simp_all add: applyFiltersAndRender_main_def)
  qed
  then show "allFeatures (fst (applyFiltersAndRender_main draws s)) = allFeatures s"
    "inputs (fst (applyFiltersAndRender_main draws s)) = inputs s" by simp_all
qed

lemma renderCards_ok:
  assumes "JNull \<notin> set fs"
  shows "\<exists>s1. renderCards fs s = (s1, None) \<and>
              (\<forall>layer. renderCards fs (s1\<lparr> geoLayer := layer \<rparr>) = (s1\<lparr> geoLayer := layer \<rparr>, None))"
proof -
  from cardsLoop_ok [OF assms, of "[]"] obtain cards where c: "cardsLoop [] fs = (cards, None)" by blast
  show ?thesis
    by (cases "grid s"; cases "countLabel s") (simp_all add: renderCards_def c)
qed

lemma applyFiltersAndRender_main_idem:
  "applyFiltersAndRender_main draws (fst (applyFiltersAndRender_main draws s)) =
     applyFiltersAndRender_main draws s"
proof (cases "filterFeatures (passesFilters_main (inputs s)) (allFeatures s)")
  case (Inl e)
  then show ?thesis by (simp add: applyFiltersAndRender_main_def)
next
  case (Inr filtered)
  then have "JNull \<notin> set (allFeatures s)" by (rule filterFeatures_no_null)
  moreover from Inr have "set filtered \<subseteq> set (allFeatures s)" by (rule filterFeatures_subset)
  ultimately have n: "JNull \<notin> set filtered" by auto
  from renderCards_ok [OF n, of s] obtain s1 where ok: "renderCards filtered s = (s1, None)"
    and again: "\<And>layer. renderCards filtered (s1\<lparr> geoLayer := layer \<rparr>) = (s1\<lparr> geoLayer := layer \<rparr>, None)"
    by blast
  have keep: "allFeatures s1 = allFeatures s" "inputs s1 = inputs s"
    using renderCards_fields [of filtered s] ok by simp_all
  obtain t e where m: "renderMap draws filtered s1 = (t, e)" by (cases "renderMap draws filtered s1")
  have first: "applyFiltersAndRender_main draws s = (t, e)"
    using Inr ok m by (simp add: applyFiltersAndRender_main_def)
  have t: "t = s1\<lparr> geoLayer := geoLayer t \<rparr>"
    using renderMap_layer_only [of draws filtered s1] m by simp
  have cards: "renderCards filtered t = (t, None)"
    using again [of "geoLayer t"] t by simp
  have same: "filterFeatures (passesFilters_main (inputs t)) (allFeatures t) = Inr filtered"
    using Inr keep renderMap_fields [of draws filtered s1] m by simp
  have "renderMap draws filtered t = (t, e)"
    using renderMap_idem [of draws filtered s1] m by simp
  with same cards have "applyFiltersAndRender_main draws t = (t, e)"
    by (simp add: applyFiltersAndRender_main_def)
  with first show ?thesis by simp
qed

text \<open>When Leaflet cannot draw the loaded collection, \<^verbatim>\<open>loadGeoJSON\<close> of docs/js/main.js
  has stored the features and drawn the cards; the error of \<^verbatim>\<open>renderMap\<close> reaches its
  \<^verbatim>\<open>catch\<close>, which overwrites the count with the failure message and logs the error.\<close>

lemma undrawable_load:
  "snd (loadGeoJSON_main leafletDraws (Resolved True (Some collectionNoCoordinates)) mainPage) = None \<and>
   allFeatures (fst (loadGeoJSON_main leafletDraws (Resolved True (Some collectionNoCoordinates)) mainPage))
     = [featureNoCoordinates] \<and>
   geoLayer (fst (loadGeoJSON_main leafletDraws (Resolved True (Some collectionNoCoordinates)) mainPage))
     = None \<and>
   countLabel (fst (loadGeoJSON_main leafletDraws (Resolved True (Some collectionNoCoordinates)) mainPage))
     = Some ''Failed to load data/tours.geojson'' \<and>
   consoleErrors (fst (loadGeoJSON_main leafletDraws (Resolved True (Some collectionNoCoordinates)) mainPage))
     = [LibraryError]"
  by code_simp

lemma filterOperations_store: "allFeatures (filterOperations uis s) = allFeatures s"
  by (induction uis arbitrary: s) (simp_all add: applyFiltersAndRender_fields)

lemma filterOperations_main_store:
  "allFeatures (filterOperations_main draws uis s) = allFeatures s"
  by (induction uis arbitrary: s) (simp_all add: applyFiltersAndRender_main_fields)

section \<open>Escaping: lemmas\<close>

lemma replaceAll_removes: "c \<notin> set r \<Longrightarrow> c \<notin> set (replaceAll c r s)"
  by (induction s) (auto simp: replaceAll_def)

lemma replaceAll_keeps_out: "d \<notin> set s \<Longrightarrow> d \<notin> set r \<Longrightarrow> d \<notin> set (replaceAll c r s)"
  by (induction s) (auto simp: replaceAll_def)

lemma escapeHtml_noMarkup: "noMarkup (escapeHtml s)"
proof -
  let ?s0 = "replaceAll (CHR ''&'') ''&amp;'' (String_js s)"
  let ?s1 = "replaceAll (CHR ''<'') ''&lt;'' ?s0"
  let ?s2 = "replaceAll (CHR ''>'') ''&gt;'' ?s1"
  let ?s3 = "replaceAll (CHR 0x22) ''&quot;'' ?s2"
  let ?s4 = "replaceAll (CHR 0x27) ''&#039;'' ?s3"
  have lt1: "CHR ''<'' \<notin> set ?s1" by (rule replaceAll_removes) simp
  then have lt2: "CHR ''<'' \<notin> set ?s2" by (rule replaceAll_keeps_out) simp
  then have lt3: "CHR ''<'' \<notin> set ?s3" by (rule replaceAll_keeps_out) simp
  then have lt4: "CHR ''<'' \<notin> set ?s4" by (rule replaceAll_keeps_out) simp
  have gt2: "CHR ''>'' \<notin> set ?s2" by (rule replaceAll_removes) simp
  then have gt3: "CHR ''>'' \<notin> set ?s3" by (rule replaceAll_keeps_out) simp
  then have gt4: "CHR ''>'' \<notin> set ?s4" by (rule replaceAll_keeps_out) simp
  have dq3: "CHR 0x22 \<notin> set ?s3" by (rule replaceAll_removes) simp
  then have dq4: "CHR 0x22 \<notin> set ?s4" by (rule replaceAll_keeps_out) simp
  have sq4: "CHR 0x27 \<notin> set ?s4" by (rule replaceAll_removes) simp
  have "escapeHtml s = ?s4" by (simp add: escapeHtml_def)
  with lt4 gt4 dq4 sq4 show ?thesis
    unfolding noMarkup_def by (metis insertE singletonD)
qed

lemma escapeAttr_no_quote: "CHR 0x22 \<notin> set (escapeAttr s)"
  unfolding escapeAttr_def by (rule replaceAll_removes) simp

lemma noMarkup_Nil [simp]: "noMarkup []"
  by (simp add: noMarkup_def)

lemma replaceAll_concat_map:
  "replaceAll c r (concat (map f s)) = concat (map (\<lambda>x. replaceAll c r (f x)) s)"
  by (induction s) (simp_all add: replaceAll_def)

lemma replaceAll_as_map: "replaceAll c r s = concat (map (\<lambda>x. if x = c then r else [x]) s)"
  by (simp add: replaceAll_def)

lemma escape_one_char:
  "replaceAll (CHR 0x27) ''&#039;''
     (replaceAll (CHR 0x22) ''&quot;''
        (replaceAll (CHR ''>'') ''&gt;''
           (replaceAll (CHR ''<'') ''&lt;'' (if x = CHR ''&'' then ''&amp;'' else [x])))) = htmlEntity x"
  by (simp add: replaceAll_def htmlEntity_def)

lemma escapeHtml_entities: "escapeHtml v = concat (map htmlEntity (String_js v))"
proof -
  have "escapeHtml v =
     replaceAll (CHR 0x27) ''&#039;''
       (replaceAll (CHR 0x22) ''&quot;''
          (replaceAll (CHR ''>'') ''&gt;''
             (replaceAll (CHR ''<'') ''&lt;''
                (concat (map (\<lambda>x. if x = CHR ''&'' then ''&amp;'' else [x]) (String_js v))))))"
    by (simp add: escapeHtml_def replaceAll_as_map [of "CHR ''&''"])
  also have "\<dots> = concat (map htmlEntity (String_js v))"
    by (simp only: replaceAll_concat_map escape_one_char)
  finally show ?thesis .
qed

lemma escapeAttr_escapes: "escapeAttr v = concat (map attrEscape (String_js v))"
proof -
  have "attrEscape = (\<lambda>x. if x = CHR 0x22 then ''%22'' else [x])"
    by (rule ext) (simp add: attrEscape_def)
  then show ?thesis by (simp add: escapeAttr_def replaceAll_def)
qed

lemma joinWith_Cons: "joinWith sep (x # xs) = x @ concat (map (\<lambda>l. sep @ l) xs)"
  by (induction xs arbitrary: x) simp_all

lemma count_list_absent: "c \<notin> set xs \<Longrightarrow> count_list xs c = 0"
  by (induction xs) auto

lemma count_lines_with_breaks:
  "\<forall>l\<in>set ls. count_list l c = 0 \<Longrightarrow>
   count_list (concat (map (\<lambda>l. sep @ l) (filter (\<lambda>l. l \<noteq> []) ls))) c =
     length (filter (\<lambda>l. l \<noteq> []) ls) * count_list sep c"
  by (induction ls) simp_all

lemma count_joined_lines:
  "c \<notin> set sep \<Longrightarrow>
   count_list (concat (map (\<lambda>l. sep @ l) (filter (\<lambda>l. l \<noteq> []) ls))) c =
     sum_list (map (\<lambda>l. count_list l c) ls)"
  by (induction ls) (simp_all add: count_list_absent)

section \<open>Selector values and the loaded store: lemmas\<close>

text \<open>What \<^verbatim>\<open>uniqSorted\<close> does achieve: the non-empty strings of its argument, each
  once, in the order of the comparator when that is a total preorder. And a successful
  load stores the truthy entries of \<^verbatim>\<open>features\<close>.\<close>

lemma uniq_foldl:
  "set (foldl (\<lambda>acc x. if x \<in> set acc then acc else acc @ [x]) acc xs) = set acc \<union> set xs"
  "distinct acc \<Longrightarrow> distinct (foldl (\<lambda>acc x. if x \<in> set acc then acc else acc @ [x]) acc xs)"
  by (induction xs arbitrary: acc) auto

lemma uniq_set [simp]: "set (uniq xs) = set xs"
  by (simp add: uniq_def uniq_foldl(1))

lemma uniq_distinct [simp]: "distinct (uniq xs)"
  by (simp add: uniq_def uniq_foldl(2))

lemma insertSorted_set [simp]: "set (insertSorted cmp x ys) = insert x (set ys)"
  by (induction ys) auto

lemma insertSorted_distinct: "distinct ys \<Longrightarrow> x \<notin> set ys \<Longrightarrow> distinct (insertSorted cmp x ys)"
  by (induction ys) auto

lemma sortWith_set [simp]: "set (sortWith cmp xs) = set xs"
  by (induction xs) (auto simp: sortWith_def)

lemma sortWith_distinct: "distinct xs \<Longrightarrow> distinct (sortWith cmp xs)"
proof (induction xs)
  case Nil
  then show ?case by (simp add: sortWith_def)
next
  case (Cons x xs)
  then have "distinct (sortWith cmp xs)" "x \<notin> set (sortWith cmp xs)" by simp_all
  then have "distinct (insertSorted cmp x (sortWith cmp xs))" by (rule insertSorted_distinct)
  then show ?case by (simp add: sortWith_def)
qed

lemma insertSorted_sorted:
  assumes total: "\<And>a b. cmp a b \<le> 0 \<or> cmp b a \<le> 0"
    and trans: "\<And>a b c. cmp a b \<le> 0 \<Longrightarrow> cmp b c \<le> 0 \<Longrightarrow> cmp a c \<le> 0"
  shows "sorted_wrt (\<lambda>a b. cmp a b \<le> 0) ys \<Longrightarrow> sorted_wrt (\<lambda>a b. cmp a b \<le> 0) (insertSorted cmp x ys)"
proof (induction ys)
  case Nil
  then show ?case by simp
next
  case (Cons y ys)
  show ?case
  proof (cases "cmp x y \<le> 0")
    case True
    with Cons.prems trans show ?thesis by auto
  next
    case False
    with total have "cmp y x \<le> 0" by blast
    with Cons False show ?thesis by auto
  qed
qed

lemma sortWith_sorted:
  assumes total: "\<And>a b. cmp a b \<le> 0 \<or> cmp b a \<le> 0"
    and trans: "\<And>a b c. cmp a b \<le> 0 \<Longrightarrow> cmp b c \<le> 0 \<Longrightarrow> cmp a c \<le> 0"
  shows "sorted_wrt (\<lambda>a b. cmp a b \<le> 0) (sortWith cmp xs)"
proof (induction xs)
  case Nil
  then show ?case by (simp add: sortWith_def)
next
  case (Cons x xs)
  have "sorted_wrt (\<lambda>a b. cmp a b \<le> 0) (insertSorted cmp x (sortWith cmp xs))"
  proof (rule insertSorted_sorted)
    show "cmp a b \<le> 0 \<or> cmp b a \<le> 0" for a b by (rule total)
    show "cmp a b \<le> 0 \<Longrightarrow> cmp b c \<le> 0 \<Longrightarrow> cmp a c \<le> 0" for a b c by (rule trans)
    show "sorted_wrt (\<lambda>a b. cmp a b \<le> 0) (sortWith cmp xs)" by (rule Cons.IH)
  qed
  then show ?case by (simp add: sortWith_def)
qed

lemma uniqSorted_values:
  "distinct (uniqSorted cmp arr) \<and> set (uniqSorted cmp arr) = set arr - {[]}"
  by (auto simp: uniqSorted_def sortWith_distinct)

lemma uniqSorted_sorted:
  assumes "\<And>a b. cmp a b \<le> 0 \<or> cmp b a \<le> 0"
    and "\<And>a b c. cmp a b \<le> 0 \<Longrightarrow> cmp b c \<le> 0 \<Longrightarrow> cmp a c \<le> 0"
  shows "sorted_wrt (\<lambda>a b. cmp a b \<le> 0) (uniqSorted cmp arr)"
  unfolding uniqSorted_def using assms by (rule sortWith_sorted)

lemma loadedFeatures_truthy:
  "loadedFeatures gj = Inr fs \<Longrightarrow> \<forall>f\<in>set fs. truthy f"
  by (auto simp: loadedFeatures_def split: if_splits option.splits json.splits)

lemma loadedFeatures_array:
  "loadedFeatures (JObj kvs) = Inr fs \<Longrightarrow> map_of kvs ''features'' = Some (JArr xs) \<Longrightarrow> fs = filter truthy xs"
  by (auto simp: loadedFeatures_def orElse_def split: if_splits)

lemma populateSelect_store [simp]: "allFeatures (populateSelect ident vals label s) = allFeatures s"
  by (simp add: populateSelect_def split: option.splits)

lemma fitIfAny_store [simp]: "allFeatures (fitIfAny b d s) = allFeatures s"
  by (simp add: fitIfAny_def split: option.splits)

lemma loadBody_store:
  assumes "loadedFeatures gj = Inr fs"
  shows "allFeatures (fst (loadBody cmp valid gj s)) = fs"
proof -
  define s3 where "s3 = populateSelect ''region''
      (uniqSorted cmp (map (\<lambda>p. String_js (get p ''region''))
         (map (\<lambda>f. case orElse (get f ''properties'') (Some (JObj [])) of
                                   Some p \<Rightarrow> p | None \<Rightarrow> JObj []) fs))) ''All regions''
      (populateSelect ''province''
        (uniqSorted cmp (map (\<lambda>p. String_js (get p ''province''))
         (map (\<lambda>f. case orElse (get f ''properties'') (Some (JObj [])) of
                                   Some p \<Rightarrow> p | None \<Rightarrow> JObj []) fs))) ''All provinces''
        (s\<lparr> allFeatures := fs \<rparr>))"
  have s3: "allFeatures s3 = fs" by (simp add: s3_def)
  obtain s4 e where r: "applyFiltersAndRender s3 = (s4, e)" by (cases "applyFiltersAndRender s3")
  then have s4: "allFeatures s4 = fs"
    using applyFiltersAndRender_fields(1) [of s3] s3 by simp
  have "loadBody cmp valid gj s =
     (case applyFiltersAndRender s3 of
                 (s4, Some e) \<Rightarrow> (s4, Some e)
               | (s4, None) \<Rightarrow>
                   (case boundsForFeatures valid (allFeatures s4) of
                      Inl e \<Rightarrow> (s4, Some e)
                    | Inr b \<Rightarrow> (fitIfAny b 0 s4, None)))"
    using assms by (simp add: loadBody_def s3_def Let_def)
  with r s4 show ?thesis
    by (cases e; cases "boundsForFeatures valid fs") simp_all
qed

lemma loadGeoJSON_store:
  assumes "loadedFeatures gj = Inr fs"
  shows "allFeatures (fst (loadGeoJSON cmp valid (Resolved True (Some gj)) s)) = fs"
proof -
  obtain s1 e where r: "loadBody cmp valid gj (s\<lparr> fetchCount := fetchCount s + 1 \<rparr>) = (s1, e)"
    by (cases "loadBody cmp valid gj (s\<lparr> fetchCount := fetchCount s + 1 \<rparr>)")
  then have "allFeatures s1 = fs"
    using loadBody_store [OF assms, of cmp valid "s\<lparr> fetchCount := fetchCount s + 1 \<rparr>"] by simp
  with r show ?thesis by (cases e) (simp_all add: loadGeoJSON_def Let_def)
qed

section \<open>Claims about the filter predicate\<close>

text \<open>
  Claim C1, as amended. With no selector set, \<^verbatim>\<open>passesFilters\<close> (in both scripts)
  returns true exactly when the trimmed, lower-cased query occurs in the haystack, the
  five normalised fields of the script joined by single spaces. Hence a query that is a
  case-insensitive substring of a string title passes, the empty query passes, and a
  query whose normalised form has no space and occurs in none of the five normalised
  fields fails. (A query with a space can match across two adjacent fields.)
\<close>

theorem text_query_filter:
  assumes "norm (controlValue ui ''province'') = []" and "norm (controlValue ui ''region'') = []"
    and "norm (controlValue ui ''difficulty'') = []" and "norm (controlValue ui ''activity'') = []"
  shows "(passesFilters ui p \<longleftrightarrow> sublist (norm (controlValue ui ''q'')) (hayMapbox p)) \<and>
         (passesFilters_main ui p \<longleftrightarrow> sublist (norm (controlValue ui ''q'')) (hayMain p)) \<and>
         (\<forall>query title.
            ui ''q'' = Some query \<and> get p ''title'' = Some (JStr title) \<and>
            sublist (toLowerCase query) (toLowerCase title)
            \<longrightarrow> passesFilters ui p \<and> passesFilters_main ui p) \<and>
         (CHR '' '' \<notin> set (norm (controlValue ui ''q'')) \<and>
          (\<forall>k \<in> {''title'', ''region'', ''province'', ''subtitle'', ''country''}.
             \<not> sublist (norm (controlValue ui ''q'')) (norm (get p k)))
            \<longrightarrow> \<not> passesFilters ui p) \<and>
         (CHR '' '' \<notin> set (norm (controlValue ui ''q'')) \<and>
          (\<forall>k \<in> {''title'', ''region'', ''subtitle'', ''activity'', ''difficulty''}.
             \<not> sublist (norm (controlValue ui ''q'')) (norm (get p k)))
            \<longrightarrow> \<not> passesFilters_main ui p) \<and>
         (norm (controlValue ui ''q'') = [] \<longrightarrow> passesFilters ui p \<and> passesFilters_main ui p)"
proof -
  let ?q = "norm (controlValue ui ''q'')"
  have a: "passesFilters ui p \<longleftrightarrow> sublist ?q (hayMapbox p)"
    using assms(1,2) by (auto simp: passesFilters_iff)
  have b: "passesFilters_main ui p \<longleftrightarrow> sublist ?q (hayMain p)"
    using assms(3,4) by (auto simp: passesFilters_main_iff)
  have c: "passesFilters ui p \<and> passesFilters_main ui p"
    if "ui ''q'' = Some query \<and> get p ''title'' = Some (JStr title) \<and>
        sublist (toLowerCase query) (toLowerCase title)" for query title
  proof -
    from that have "sublist (norm (Some (JStr query))) (norm (Some (JStr title)))"
      by (simp add: norm_query_in_norm_title)
    with that have "sublist ?q (norm (get p ''title''))"
      by (simp add: controlValue_def)
    then have "sublist ?q (hayMapbox p) \<and> sublist ?q (hayMain p)" by (rule title_in_hay)
    then show ?thesis by (simp add: a b)
  qed
  have d: "\<not> passesFilters ui p"
    if "CHR '' '' \<notin> set ?q \<and>
         (\<forall>k \<in> {''title'', ''region'', ''province'', ''subtitle'', ''country''}.
             \<not> sublist ?q (norm (get p k)))"
  proof
    assume "passesFilters ui p"
    then have "sublist ?q (hayMapbox p)" by (simp add: a)
    from hayMapbox_fields [OF this] that show False by simp
  qed
  have e: "\<not> passesFilters_main ui p"
    if "CHR '' '' \<notin> set ?q \<and>
         (\<forall>k \<in> {''title'', ''region'', ''subtitle'', ''activity'', ''difficulty''}.
             \<not> sublist ?q (norm (get p k)))"
  proof
    assume "passesFilters_main ui p"
    then have "sublist ?q (hayMain p)" by (simp add: b)
    from hayMain_fields [OF this] that show False by simp
  qed
  have f: "passesFilters ui p \<and> passesFilters_main ui p" if "?q = []"
    using that by (simp add: a b)
  show ?thesis
    apply (intro conjI allI impI)
           apply (rule a)
          apply (rule b)
         apply (erule c [THEN conjunct1])
        apply (erule c [THEN conjunct2])
       apply (erule d)
      apply (erule e)
     apply (erule f [THEN conjunct1])
    apply (erule f [THEN conjunct2])
    done
qed

text \<open>The query \<^verbatim>\<open>PEAK\<close> is found in the title \<^verbatim>\<open>Gin Peak\<close>; the query
  \<^verbatim>\<open>Zermatt\<close> occurs in no field of that tour and fails.\<close>

theorem text_query_filter_witness:
  "norm (controlValue searchPeak ''province'') = [] \<and>
   norm (controlValue searchPeak ''region'') = [] \<and>
   norm (controlValue searchPeak ''difficulty'') = [] \<and>
   norm (controlValue searchPeak ''activity'') = [] \<and>
   sublist (toLowerCase ''PEAK'') (toLowerCase ''Gin Peak'') \<and>
   passesFilters searchPeak tourGin \<and> passesFilters_main searchPeak tourGin \<and>
   CHR '' '' \<notin> set (norm (controlValue searchZermatt ''q'')) \<and>
   \<not> passesFilters searchZermatt tourGin \<and> \<not> passesFilters_main searchZermatt tourGin"
proof -
  have h: "norm (controlValue searchPeak ''province'') = []"
    "norm (controlValue searchPeak ''region'') = []"
    "norm (controlValue searchPeak ''difficulty'') = []"
    "norm (controlValue searchPeak ''activity'') = []"
    by code_simp+
  have z: "norm (controlValue searchZermatt ''province'') = []"
    "norm (controlValue searchZermatt ''region'') = []"
    "norm (controlValue searchZermatt ''difficulty'') = []"
    "norm (controlValue searchZermatt ''activity'') = []"
    by code_simp+
  have t: "searchPeak ''q'' = Some ''PEAK'' \<and> get tourGin ''title'' = Some (JStr ''Gin Peak'') \<and>
           sublist (toLowerCase ''PEAK'') (toLowerCase ''Gin Peak'')"
    by code_simp
  have n1: "CHR '' '' \<notin> set (norm (controlValue searchZermatt ''q'')) \<and>
          (\<forall>k \<in> {''title'', ''region'', ''province'', ''subtitle'', ''country''}.
             \<not> sublist (norm (controlValue searchZermatt ''q'')) (norm (get tourGin k)))"
    by code_simp
  have n2: "CHR '' '' \<notin> set (norm (controlValue searchZermatt ''q'')) \<and>
          (\<forall>k \<in> {''title'', ''region'', ''subtitle'', ''activity'', ''difficulty''}.
             \<not> sublist (norm (controlValue searchZermatt ''q'')) (norm (get tourGin k)))"
    by code_simp
  note P = text_query_filter [OF h, of tourGin]
  note Z = text_query_filter [OF z, of tourGin]
  have p: "passesFilters searchPeak tourGin \<and> passesFilters_main searchPeak tourGin"
    using P [THEN conjunct2, THEN conjunct2, THEN conjunct1] t by blast
  have z1: "\<not> passesFilters searchZermatt tourGin"
    by (rule Z [THEN conjunct2, THEN conjunct2, THEN conjunct2, THEN conjunct1, THEN mp, OF n1])
  have z2: "\<not> passesFilters_main searchZermatt tourGin"
    by (rule Z [THEN conjunct2, THEN conjunct2, THEN conjunct2, THEN conjunct2,
                THEN conjunct1, THEN mp, OF n2])
  from h t p n1 z1 z2 show ?thesis by simp
qed

text \<open>The claim as written fails where the query spans two fields: the query \<^verbatim>\<open>a b\<close>
  occurs in no field of a tour with title \<^verbatim>\<open>a\<close> and region \<^verbatim>\<open>b\<close>, and passes.\<close>

theorem cross_field_query_counterexample:
  "norm (controlValue searchCrossField ''q'') = ''a b'' \<and>
   \<not> sublist (norm (controlValue searchCrossField ''q'')) (norm (get tourA ''title'')) \<and>
   \<not> sublist (norm (controlValue searchCrossField ''q'')) (norm (get tourA ''region'')) \<and>
   \<not> sublist (norm (controlValue searchCrossField ''q'')) (norm (get tourA ''province'')) \<and>
   \<not> sublist (norm (controlValue searchCrossField ''q'')) (norm (get tourA ''subtitle'')) \<and>
   \<not> sublist (norm (controlValue searchCrossField ''q'')) (norm (get tourA ''country'')) \<and>
   \<not> sublist (norm (controlValue searchCrossField ''q'')) (norm (get tourA ''activity'')) \<and>
   \<not> sublist (norm (controlValue searchCrossField ''q'')) (norm (get tourA ''difficulty'')) \<and>
   passesFilters searchCrossField tourA \<and>
   passesFilters_main searchCrossField tourA"
  by code_simp

text \<open>
  Claim C2, as amended. In both scripts the predicate is true exactly when all its
  constraints pass: the text query, and for each selector whose text is not empty after
  trimming, that the selector's text and the text of its property are equal once both
  are trimmed and lower-cased. The property's text is its conversion to a string, empty
  when the property is absent. So the match is of whole values and ignores letter case
  (texts that differ only in case always compare equal) and surrounding white space; on
  texts without surrounding white space it is equality of the lower-cased texts.
\<close>

theorem selector_filter:
  "(passesFilters ui p \<longleftrightarrow>
     (toLowerCase (trim (controlText ui ''q'')) = [] \<or>
        sublist (toLowerCase (trim (controlText ui ''q''))) (hayMapbox p)) \<and>
     (toLowerCase (trim (controlText ui ''province'')) = [] \<or>
        toLowerCase (trim (propertyText p ''province'')) =
        toLowerCase (trim (controlText ui ''province''))) \<and>
     (toLowerCase (trim (controlText ui ''region'')) = [] \<or>
        toLowerCase (trim (propertyText p ''region'')) =
        toLowerCase (trim (controlText ui ''region'')))) \<and>
   (passesFilters_main ui p \<longleftrightarrow>
     (toLowerCase (trim (controlText ui ''q'')) = [] \<or>
        sublist (toLowerCase (trim (controlText ui ''q''))) (hayMain p)) \<and>
     (toLowerCase (trim (controlText ui ''difficulty'')) = [] \<or>
        toLowerCase (trim (propertyText p ''difficulty'')) =
        toLowerCase (trim (controlText ui ''difficulty''))) \<and>
     (toLowerCase (trim (controlText ui ''activity'')) = [] \<or>
        toLowerCase (trim (propertyText p ''activity'')) =
        toLowerCase (trim (controlText ui ''activity'')))) \<and>
   (\<forall>v w. toLowerCase v = toLowerCase w \<longrightarrow> toLowerCase (trim v) = toLowerCase (trim w)) \<and>
   (\<forall>v w. trim v = v \<and> trim w = w \<longrightarrow>
      (toLowerCase (trim v) = toLowerCase (trim w) \<longleftrightarrow> toLowerCase v = toLowerCase w)) \<and>
   (\<forall>w. toLowerCase (trim w) = [] \<longleftrightarrow> trim w = [])"
proof -
  have a: "passesFilters ui p \<longleftrightarrow>
     (toLowerCase (trim (controlText ui ''q'')) = [] \<or>
        sublist (toLowerCase (trim (controlText ui ''q''))) (hayMapbox p)) \<and>
     (toLowerCase (trim (controlText ui ''province'')) = [] \<or>
        toLowerCase (trim (propertyText p ''province'')) =
        toLowerCase (trim (controlText ui ''province''))) \<and>
     (toLowerCase (trim (controlText ui ''region'')) = [] \<or>
        toLowerCase (trim (propertyText p ''region'')) =
        toLowerCase (trim (controlText ui ''region'')))"
    unfolding passesFilters_iff norm_control_text norm_property_text by (rule refl)
  have b: "passesFilters_main ui p \<longleftrightarrow>
     (toLowerCase (trim (controlText ui ''q'')) = [] \<or>
        sublist (toLowerCase (trim (controlText ui ''q''))) (hayMain p)) \<and>
     (toLowerCase (trim (controlText ui ''difficulty'')) = [] \<or>
        toLowerCase (trim (propertyText p ''difficulty'')) =
        toLowerCase (trim (controlText ui ''difficulty''))) \<and>
     (toLowerCase (trim (controlText ui ''activity'')) = [] \<or>
        toLowerCase (trim (propertyText p ''activity'')) =
        toLowerCase (trim (controlText ui ''activity'')))"
    unfolding passesFilters_main_iff norm_control_text norm_property_text by (rule refl)
  have c: "toLowerCase (trim v) = toLowerCase (trim w)" if "toLowerCase v = toLowerCase w" for v w
    using that by (simp add: trim_toLowerCase [symmetric])
  have d: "toLowerCase (trim v) = toLowerCase (trim w) \<longleftrightarrow> toLowerCase v = toLowerCase w"
    if "trim v = v \<and> trim w = w" for v w
    using that by simp
  have e: "toLowerCase (trim w) = [] \<longleftrightarrow> trim w = []" for w
    by (simp add: toLowerCase_def)
  show ?thesis
    apply (intro conjI allI impI)
        apply (rule a)
       apply (rule b)
      apply (erule c)
     apply (erule d)
    apply (rule e)
    done
qed

text \<open>The selector \<^verbatim>\<open>difficulty = "Advanced"\<close> keeps the tour of difficulty
  \<^verbatim>\<open>advanced\<close> and excludes the one of difficulty \<^verbatim>\<open>intermediate\<close>.\<close>

theorem selector_filter_witness:
  "toLowerCase (trim (controlText selectAdvanced ''difficulty'')) = ''advanced'' \<and>
   toLowerCase (trim (propertyText tourAdvanced ''difficulty'')) = ''advanced'' \<and>
   toLowerCase (trim (propertyText tourIntermediate ''difficulty'')) = ''intermediate'' \<and>
   toLowerCase ''Advanced'' = toLowerCase ''advanced'' \<and>
   passesFilters_main selectAdvanced tourAdvanced \<and>
   \<not> passesFilters_main selectAdvanced tourIntermediate"
proof -
  have v: "toLowerCase (trim (controlText selectAdvanced ''difficulty'')) = ''advanced''"
    "toLowerCase (trim (propertyText tourAdvanced ''difficulty'')) = ''advanced''"
    "toLowerCase (trim (propertyText tourIntermediate ''difficulty'')) = ''intermediate''"
    "toLowerCase (trim (controlText selectAdvanced ''q'')) = []"
    "toLowerCase (trim (controlText selectAdvanced ''activity'')) = []"
    "toLowerCase ''Advanced'' = toLowerCase ''advanced''"
    by code_simp+
  have "passesFilters_main selectAdvanced tourAdvanced"
    using selector_filter [of selectAdvanced tourAdvanced, THEN conjunct2, THEN conjunct1] v by simp
  moreover have "\<not> passesFilters_main selectAdvanced tourIntermediate"
    using selector_filter [of selectAdvanced tourIntermediate, THEN conjunct2, THEN conjunct1] v by simp
  ultimately show ?thesis using v by simp
qed

text \<open>The claim as written fails on padded values: the selector \<^verbatim>\<open>Advanced\<close> keeps a tour
  whose difficulty is \<^verbatim>\<open>advanced\<close> followed by a space, and the selector \<^verbatim>\<open>BC\<close> keeps
  one whose province is \<^verbatim>\<open>bc\<close> between a space and a tab, though neither pair is equal
  when only the case of the letters is ignored.\<close>

theorem padded_selector_counterexample:
  "selectAdvanced ''difficulty'' = Some ''Advanced'' \<and>
   get tourPadded ''difficulty'' = Some (JStr ''advanced '') \<and>
   toLowerCase ''Advanced'' \<noteq> toLowerCase ''advanced '' \<and>
   passesFilters_main selectAdvanced tourPadded \<and>
   selectBC ''province'' = Some ''BC'' \<and>
   get tourPadded ''province'' = Some (JStr ('' bc'' @ [CHR 0x09])) \<and>
   toLowerCase ''BC'' \<noteq> toLowerCase ('' bc'' @ [CHR 0x09]) \<and>
   passesFilters selectBC tourPadded"
  by code_simp

text \<open>
  Claim C7. When every control the predicates read (the query and the four selectors) is
  missing or empty after normalisation, the predicate of either script is true of every
  properties object, and filtering a feature list (one without \<^verbatim>\<open>null\<close> entries, as
  the store is) returns the list itself.
\<close>

theorem empty_filter_is_identity:
  assumes "\<forall>k \<in> {''q'', ''province'', ''region'', ''difficulty'', ''activity''}.
             norm (controlValue ui k) = []"
  shows "passesFilters ui p \<and> passesFilters_main ui p \<and>
         (JNull \<notin> set fs \<longrightarrow>
            filterFeatures (passesFilters ui) fs = Inr fs \<and>
            filterFeatures (passesFilters_main ui) fs = Inr fs)"
proof -
  from assms have n: "norm (controlValue ui ''q'') = []" "norm (controlValue ui ''province'') = []"
    "norm (controlValue ui ''region'') = []" "norm (controlValue ui ''difficulty'') = []"
    "norm (controlValue ui ''activity'') = []"
    by simp_all
  have a: "passesFilters ui x" for x by (simp add: passesFilters_iff n)
  have b: "passesFilters_main ui x" for x by (simp add: passesFilters_main_iff n)
  show ?thesis using a b by (simp add: filterFeatures_filter)
qed

text \<open>A page without any of the controls shows every tour.\<close>

theorem empty_filter_is_identity_witness:
  "norm (controlValue noControls ''q'') = [] \<and>
   norm (controlValue noControls ''province'') = [] \<and>
   norm (controlValue noControls ''region'') = [] \<and>
   norm (controlValue noControls ''difficulty'') = [] \<and>
   norm (controlValue noControls ''activity'') = [] \<and>
   JNull \<notin> set [tourGin, tourA] \<and>
   passesFilters noControls tourGin \<and> passesFilters_main noControls tourGin \<and>
   filterFeatures (passesFilters noControls) [tourGin, tourA] = Inr [tourGin, tourA] \<and>
   filterFeatures (passesFilters_main noControls) [tourGin, tourA] = Inr [tourGin, tourA]"
proof -
  have e: "norm (controlValue noControls k) = []" for k
    by (simp add: noControls_def controlValue_def)
  then have h: "\<forall>k \<in> {''q'', ''province'', ''region'', ''difficulty'', ''activity''}.
             norm (controlValue noControls k) = []"
    by simp
  have n: "JNull \<notin> set [tourGin, tourA]"
    by (simp add: tourGin_def tourA_def)
  from empty_filter_is_identity [OF h, of tourGin "[tourGin, tourA]"] e n
  show ?thesis by simp
qed

section \<open>Claims about colour and navigation\<close>

text \<open>
  Claim C5, as amended. Two pieces of code classify the direction. The paint expression
  of the two map layers takes the first of \<^verbatim>\<open>direction\<close> and \<^verbatim>\<open>direcrtion\<close> that is
  not null, the empty string when both are absent; when that value is a string it
  lower-cases it, without trimming, and gives the second colour exactly for \<^verbatim>\<open>down\<close> and
  \<^verbatim>\<open>descent\<close>, the third exactly for \<^verbatim>\<open>traverse\<close> and \<^verbatim>\<open>cross\<close>, and the ascent colour
  for every other string, the empty one of an absent direction included; on a value that
  is not a string it gives no colour. The helper \<^verbatim>\<open>trackColorFromProps\<close>, which nothing
  calls, takes the first truthy of the two fields, converts it to a string, trims and
  lower-cases it, and classifies in the same way. On a non-empty string direction
  without surrounding white space the two agree; the case of the letters changes
  neither.
\<close>

theorem direction_colour:
  "(\<forall>s. coalesce (coalesce (get p ''direction'') (get p ''direcrtion'')) (Some (JStr [])) = Some (JStr s)
        \<longrightarrow> paintColor p = Some (spec_directionColor (toLowerCase s))) \<and>
   ((\<forall>s. coalesce (coalesce (get p ''direction'') (get p ''direcrtion'')) (Some (JStr [])) \<noteq> Some (JStr s))
        \<longrightarrow> paintColor p = None) \<and>
   (\<forall>s. get p ''direction'' = Some (JStr s) \<longrightarrow>
        paintColor p = Some (spec_directionColor (toLowerCase s)) \<and>
        paintColor p = paintColor (JObj [(''direction'', JStr (toLowerCase s))])) \<and>
   (\<forall>s. nullish (get p ''direction'') \<and> get p ''direcrtion'' = Some (JStr s) \<longrightarrow>
        paintColor p = Some (spec_directionColor (toLowerCase s))) \<and>
   (nullish (get p ''direction'') \<and> nullish (get p ''direcrtion'') \<longrightarrow>
        paintColor p = Some ''#1f6feb'') \<and>
   trackColorFromProps pv =
     spec_directionColor (norm (orElse (getOpt pv ''direction'') (getOpt pv ''direcrtion''))) \<and>
   (nullish (getOpt pv ''direction'') \<longrightarrow>
      trackColorFromProps pv = spec_directionColor (norm (getOpt pv ''direcrtion''))) \<and>
   (\<forall>s. s \<noteq> [] \<and> getOpt pv ''direction'' = Some (JStr s) \<longrightarrow>
      trackColorFromProps pv = spec_directionColor (toLowerCase (trim s)) \<and>
      trackColorFromProps pv =
        trackColorFromProps (Some (JObj [(''direction'', JStr (toLowerCase s))]))) \<and>
   (\<forall>s. s \<noteq> [] \<and> trim s = s \<and> get p ''direction'' = Some (JStr s) \<longrightarrow>
      paintColor p = Some (trackColorFromProps (Some p))) \<and>
   (\<forall>d. (spec_directionColor d = ''#b64a4a'' \<longleftrightarrow> d \<in> {''down'', ''descent''}) \<and>
        (spec_directionColor d = ''#b000b5'' \<longleftrightarrow> d \<in> {''traverse'', ''cross''}) \<and>
        (d \<notin> {''down'', ''descent'', ''traverse'', ''cross''} \<longrightarrow> spec_directionColor d = ''#1f6feb''))"
proof -
  let ?c = "coalesce (coalesce (get p ''direction'') (get p ''direcrtion'')) (Some (JStr []))"
  have p1: "paintColor p = Some (spec_directionColor (toLowerCase s))" if "?c = Some (JStr s)" for s
    using that by (simp add: paintColor_def spec_directionColor_def Let_def)
  have p2: "paintColor p = None" if "\<forall>s. ?c \<noteq> Some (JStr s)"
  proof (cases ?c)
    case None
    then show ?thesis by (simp add: paintColor_def)
  next
    case (Some v)
    with that show ?thesis by (cases v) (simp_all add: paintColor_def)
  qed
  have p3: "paintColor p = Some (spec_directionColor (toLowerCase s)) \<and>
        paintColor p = paintColor (JObj [(''direction'', JStr (toLowerCase s))])"
    if "get p ''direction'' = Some (JStr s)" for s
  proof -
    from that have "?c = Some (JStr s)" by (simp add: coalesce_def)
    then have 1: "paintColor p = Some (spec_directionColor (toLowerCase s))" by (rule p1)
    have "paintColor (JObj [(''direction'', JStr (toLowerCase s))])
            = Some (spec_directionColor (toLowerCase (toLowerCase s)))"
      by (simp add: paintColor_def spec_directionColor_def Let_def coalesce_def)
    with 1 show ?thesis by simp
  qed
  have p4: "paintColor p = Some (spec_directionColor (toLowerCase s))"
    if "nullish (get p ''direction'') \<and> get p ''direcrtion'' = Some (JStr s)" for s
  proof -
    from that have "?c = Some (JStr s)" by (simp add: coalesce_def)
    then show ?thesis by (rule p1)
  qed
  have p5: "paintColor p = Some ''#1f6feb''"
    if "nullish (get p ''direction'') \<and> nullish (get p ''direcrtion'')"
  proof -
    from that have "?c = Some (JStr [])" by (simp add: coalesce_def)
    then have "paintColor p = Some (spec_directionColor (toLowerCase []))" by (rule p1)
    then show ?thesis by (simp add: spec_directionColor_def toLowerCase_def)
  qed
  let ?d = "norm (orElse (getOpt pv ''direction'') (getOpt pv ''direcrtion''))"
  have a: "trackColorFromProps pv = spec_directionColor ?d" by (rule trackColor_read)
  have b: "trackColorFromProps pv = spec_directionColor (norm (getOpt pv ''direcrtion''))"
    if "nullish (getOpt pv ''direction'')"
  proof -
    from that have "\<not> truthyV (getOpt pv ''direction'')"
      by (cases "getOpt pv ''direction''" rule: nullish.cases) auto
    then show ?thesis by (simp add: a orElse_def)
  qed
  have c: "trackColorFromProps pv = spec_directionColor (toLowerCase (trim s)) \<and>
      trackColorFromProps pv =
        trackColorFromProps (Some (JObj [(''direction'', JStr (toLowerCase s))]))"
    if "s \<noteq> [] \<and> getOpt pv ''direction'' = Some (JStr s)" for s
  proof -
    from that have 1: "?d = toLowerCase (trim s)"
      by (simp add: orElse_def norm_def coalesce_def)
    have "toLowerCase s \<noteq> []" using that by (simp add: toLowerCase_def)
    then have "trackColorFromProps (Some (JObj [(''direction'', JStr (toLowerCase s))]))
        = spec_directionColor (toLowerCase (trim (toLowerCase s)))"
      by (simp add: trackColor_read orElse_def norm_def coalesce_def)
    then show ?thesis by (simp add: a 1 trim_toLowerCase)
  qed
  have agree: "paintColor p = Some (trackColorFromProps (Some p))"
    if "s \<noteq> [] \<and> trim s = s \<and> get p ''direction'' = Some (JStr s)" for s
  proof -
    from that have g: "getOpt (Some p) ''direction'' = Some (JStr s)"
      by (cases p) simp_all
    have "trackColorFromProps (Some p) = spec_directionColor (norm (orElse (getOpt (Some p) ''direction'')
            (getOpt (Some p) ''direcrtion'')))"
      by (rule trackColor_read)
    with that g have "trackColorFromProps (Some p) = spec_directionColor (toLowerCase s)"
      by (simp add: orElse_def norm_string)
    moreover from that have "paintColor p = Some (spec_directionColor (toLowerCase s))"
      using p3 by blast
    ultimately show ?thesis by simp
  qed
  have cls: "(spec_directionColor d = ''#b64a4a'' \<longleftrightarrow> d \<in> {''down'', ''descent''}) \<and>
        (spec_directionColor d = ''#b000b5'' \<longleftrightarrow> d \<in> {''traverse'', ''cross''}) \<and>
        (d \<notin> {''down'', ''descent'', ''traverse'', ''cross''} \<longrightarrow> spec_directionColor d = ''#1f6feb'')"
    for d
    by (simp add: spec_directionColor_def)
  show ?thesis
    apply (intro conjI)
             apply (rule allI, rule impI, erule p1)
            apply (rule impI, erule p2)
           apply (rule allI, rule impI, erule p3)
          apply (rule allI, rule impI, erule p4)
         apply (rule impI, erule p5)
        apply (rule a)
       apply (rule impI, erule b)
      apply (rule allI, rule impI, erule c)
     apply (rule allI, rule impI, erule agree)
    apply (rule allI, rule cls)
    done
qed

text \<open>\<^verbatim>\<open>direction: "ASCENT"\<close> and \<^verbatim>\<open>direcrtion: "Ascent"\<close> alone both give the ascent
  colour, in the paint expression and in the helper.\<close>

theorem direction_colour_witness:
  "get tourUpperAscent ''direction'' = Some (JStr ''ASCENT'') \<and>
   nullish (get tourTypoAscent ''direction'') \<and>
   get tourTypoAscent ''direcrtion'' = Some (JStr ''Ascent'') \<and>
   paintColor tourUpperAscent = Some ''#1f6feb'' \<and>
   paintColor tourTypoAscent = Some ''#1f6feb'' \<and>
   trackColorFromProps (Some tourUpperAscent) = ''#1f6feb'' \<and>
   trackColorFromProps (Some tourTypoAscent) = ''#1f6feb''"
proof -
  have u: "get tourUpperAscent ''direction'' = Some (JStr ''ASCENT'')" by code_simp
  have t: "nullish (get tourTypoAscent ''direction'') \<and>
           get tourTypoAscent ''direcrtion'' = Some (JStr ''Ascent'')" by code_simp
  have hu: "''ASCENT'' \<noteq> [] \<and> getOpt (Some tourUpperAscent) ''direction'' = Some (JStr ''ASCENT'')"
    by code_simp
  have ht: "nullish (getOpt (Some tourTypoAscent) ''direction'')" by code_simp
  have e1: "spec_directionColor (toLowerCase ''ASCENT'') = ''#1f6feb''" by code_simp
  have e2: "spec_directionColor (toLowerCase ''Ascent'') = ''#1f6feb''" by code_simp
  have e3: "spec_directionColor (toLowerCase (trim ''ASCENT'')) = ''#1f6feb''" by code_simp
  have e4: "spec_directionColor (norm (getOpt (Some tourTypoAscent) ''direcrtion'')) = ''#1f6feb''"
    by code_simp
  note U = direction_colour [of tourUpperAscent "Some tourUpperAscent"]
  note T = direction_colour [of tourTypoAscent "Some tourTypoAscent"]
  have 1: "paintColor tourUpperAscent = Some ''#1f6feb''"
    using U [THEN conjunct2, THEN conjunct2, THEN conjunct1, THEN spec, THEN mp, OF u] e1 by simp
  have 2: "paintColor tourTypoAscent = Some ''#1f6feb''"
    using T [THEN conjunct2, THEN conjunct2, THEN conjunct2, THEN conjunct1, THEN spec, THEN mp, OF t]
      e2 by simp
  have 3: "trackColorFromProps (Some tourUpperAscent) = ''#1f6feb''"
    using U [THEN conjunct2, THEN conjunct2, THEN conjunct2, THEN conjunct2, THEN conjunct2,
        THEN conjunct2, THEN conjunct2, THEN conjunct1, THEN spec, THEN mp, OF hu] e3 by simp
  have 4: "trackColorFromProps (Some tourTypoAscent) = ''#1f6feb''"
    using T [THEN conjunct2, THEN conjunct2, THEN conjunct2, THEN conjunct2, THEN conjunct2,
        THEN conjunct2, THEN conjunct1, THEN mp, OF ht] e4 by simp
  from u t 1 2 3 4 show ?thesis by simp
qed

text \<open>The claim as written fails. A direction that is the number 5 gets no colour from
  the paint expression, not the ascent colour. And one classification does not exist:
  on the direction \<^verbatim>\<open>down\<close> between two spaces, and on an empty direction beside the
  misspelled field \<^verbatim>\<open>down\<close>, the helper gives the descent colour and the paint
  expression the ascent colour.\<close>

theorem direction_colour_counterexample:
  "get tourNumberDirection ''direction'' = Some (JNum 5) \<and>
   paintColor tourNumberDirection = None \<and>
   trackColorFromProps (Some tourNumberDirection) = ''#1f6feb'' \<and>
   get tourPaddedDown ''direction'' = Some (JStr '' down '') \<and>
   trackColorFromProps (Some tourPaddedDown) = ''#b64a4a'' \<and>
   paintColor tourPaddedDown = Some ''#1f6feb'' \<and>
   trackColorFromProps (Some tourEmptyDirection) = ''#b64a4a'' \<and>
   paintColor tourEmptyDirection = Some ''#1f6feb''"
  by code_simp

text \<open>
  Claim C8. \<^verbatim>\<open>openTour\<close> opens \<^verbatim>\<open>page\<close> when that property is set (truthy), else
  \<^verbatim>\<open>./tours/{slug}.html\<close> when \<^verbatim>\<open>slug\<close> is set, and opens nothing when neither is.
  Every call of \<^verbatim>\<open>window.open\<close> it makes has the target \<^verbatim>\<open>_blank\<close> and the feature
  \<^verbatim>\<open>noopener\<close>.
\<close>

theorem open_tour_target:
  "(truthyV (get p ''page'') \<longrightarrow>
      openTour p = Some (WindowOpen (String_js (get p ''page'')) ''_blank'' ''noopener,noreferrer'')) \<and>
   (\<not> truthyV (get p ''page'') \<and> truthyV (get p ''slug'') \<longrightarrow>
      openTour p = Some (WindowOpen (''./tours/'' @ String_js (get p ''slug'') @ ''.html'')
                           ''_blank'' ''noopener,noreferrer'')) \<and>
   (\<not> truthyV (get p ''page'') \<and> \<not> truthyV (get p ''slug'') \<longrightarrow> openTour p = None) \<and>
   (\<forall>url target features. openTour p = Some (WindowOpen url target features) \<longrightarrow>
      target = ''_blank'' \<and> sublist ''noopener'' features)"
proof -
  have noop: "sublist ''noopener'' ''noopener,noreferrer''"
    by (simp add: sublist_code)
  have a: "truthyV (get p ''page'') \<Longrightarrow>
      openTour p = Some (WindowOpen (String_js (get p ''page'')) ''_blank'' ''noopener,noreferrer'')"
    by (simp add: openTour_def orElse_def Let_def)
  have b: "\<not> truthyV (get p ''page'') \<and> truthyV (get p ''slug'') \<Longrightarrow>
      openTour p = Some (WindowOpen (''./tours/'' @ String_js (get p ''slug'') @ ''.html'')
                           ''_blank'' ''noopener,noreferrer'')"
    by (simp add: openTour_def orElse_def Let_def)
  have c: "\<not> truthyV (get p ''page'') \<and> \<not> truthyV (get p ''slug'') \<Longrightarrow> openTour p = None"
    by (simp add: openTour_def orElse_def Let_def)
  have d: "target = ''_blank'' \<and> sublist ''noopener'' features"
    if "openTour p = Some (WindowOpen url target features)" for url target features
  proof -
    from that have "target = ''_blank'' \<and> features = ''noopener,noreferrer''"
      by (simp add: openTour_def Let_def split: if_splits)
    with noop show ?thesis by simp
  qed
  show ?thesis
    apply (intro conjI allI impI)
        apply (erule a)
       apply (erule b)
      apply (erule c)
     apply (erule d [THEN conjunct1])
    apply (erule d [THEN conjunct2])
    done
qed

text \<open>A tour with only the slug \<^verbatim>\<open>ginpeak-up\<close> opens \<^verbatim>\<open>./tours/ginpeak-up.html\<close>; a
  tour with a page opens the page; a tour with neither opens nothing.\<close>

theorem open_tour_target_witness:
  "\<not> truthyV (get tourGin ''page'') \<and> truthyV (get tourGin ''slug'') \<and>
   openTour tourGin =
     Some (WindowOpen ''./tours/ginpeak-up.html'' ''_blank'' ''noopener,noreferrer'') \<and>
   truthyV (get tourWithPage ''page'') \<and>
   openTour tourWithPage =
     Some (WindowOpen ''https://example.org/t.html'' ''_blank'' ''noopener,noreferrer'') \<and>
   \<not> truthyV (get tourA ''page'') \<and> \<not> truthyV (get tourA ''slug'') \<and> openTour tourA = None"
proof -
  have g: "\<not> truthyV (get tourGin ''page'') \<and> truthyV (get tourGin ''slug'')" by code_simp
  have gs: "''./tours/'' @ String_js (get tourGin ''slug'') @ ''.html'' = ''./tours/ginpeak-up.html''"
    by code_simp
  have w: "truthyV (get tourWithPage ''page'')" by code_simp
  have ws: "String_js (get tourWithPage ''page'') = ''https://example.org/t.html''" by code_simp
  have n: "\<not> truthyV (get tourA ''page'') \<and> \<not> truthyV (get tourA ''slug'')" by code_simp
  have 1: "openTour tourGin =
     Some (WindowOpen ''./tours/ginpeak-up.html'' ''_blank'' ''noopener,noreferrer'')"
    using open_tour_target [of tourGin, THEN conjunct2, THEN conjunct1, THEN mp, OF g] gs
    by simp
  have 2: "openTour tourWithPage =
     Some (WindowOpen ''https://example.org/t.html'' ''_blank'' ''noopener,noreferrer'')"
    using open_tour_target [of tourWithPage, THEN conjunct1, THEN mp, OF w] ws
    by simp
  have 3: "openTour tourA = None"
    by (rule open_tour_target [of tourA, THEN conjunct2, THEN conjunct2, THEN conjunct1, THEN mp, OF n])
  from g w n 1 2 3 show ?thesis by simp
qed

section \<open>Claims about bounds, purity and loading\<close>

text \<open>
  Claim C9. \<^verbatim>\<open>boundsForFeatures\<close> gives the same result with the features that lack a
  geometry or coordinates removed, so they are skipped; it returns \<^verbatim>\<open>null\<close> without an
  error when every feature is such a one (or the list is empty); it returns without an
  error on every feature list when the map library accepts every point; and when the
  bounds are \<^verbatim>\<open>null\<close> or empty neither the load nor the fit button calls
  \<^verbatim>\<open>map.fitBounds\<close>: the click handler leaves the page as it was.
\<close>

theorem bounds_skip_degenerate:
  "boundsForFeatures valid fs = boundsForFeatures valid (filter hasCoordinates fs) \<and>
   ((\<forall>f\<in>set fs. \<not> hasCoordinates f) \<longrightarrow> boundsForFeatures valid fs = Inr None) \<and>
   ((\<forall>pt. valid pt) \<longrightarrow> (\<exists>b. boundsForFeatures valid fs = Inr b)) \<and>
   (b = None \<or> b = Some [] \<longrightarrow> fitIfAny b duration s = s) \<and>
   ((\<forall>f\<in>set (allFeatures s). f \<noteq> JNull \<and> \<not> hasCoordinates f) \<longrightarrow>
      fitClick valid s = (s, None))"
proof -
  have a: "boundsForFeatures valid fs = boundsForFeatures valid (filter hasCoordinates fs)"
    unfolding boundsForFeatures_def by (rule boundsLoop_filter)
  have b: "boundsForFeatures valid fs = Inr None" if "\<forall>f\<in>set fs. \<not> hasCoordinates f"
    unfolding boundsForFeatures_def using that by (rule boundsLoop_none)
  have c: "\<exists>b. boundsForFeatures valid fs = Inr b" if "\<forall>pt. valid pt"
    unfolding boundsForFeatures_def using that by (rule boundsLoop_total)
  have d: "fitIfAny b duration s = s" if "b = None \<or> b = Some []"
    using that by (auto simp: fitIfAny_def isEmpty_def)
  have e: "fitClick valid s = (s, None)"
    if "\<forall>f\<in>set (allFeatures s). f \<noteq> JNull \<and> \<not> hasCoordinates f"
    using that by (rule fitClick_skipped)
  show ?thesis
    apply (intro conjI impI)
        apply (rule a)
       apply (erule b)
      apply (erule c)
     apply (erule d)
    apply (erule e)
    done
qed

theorem bounds_skip_degenerate_witness:
  "\<not> hasCoordinates featureNoGeometry \<and> \<not> hasCoordinates featureNoCoordinates \<and>
   boundsForFeatures latitudeInRange [featureNoGeometry, featureNoCoordinates] = Inr None \<and>
   (\<forall>pt. acceptAll pt) \<and>
   boundsForFeatures acceptAll [featureNoGeometry, featureGin] = Inr (Some [(- 123, 50), (- 122, 51)]) \<and>
   allFeatures degeneratePage = [featureNoGeometry, featureNoCoordinates] \<and>
   fitClick latitudeInRange degeneratePage = (degeneratePage, None)"
proof -
  have g: "\<not> hasCoordinates featureNoGeometry" "\<not> hasCoordinates featureNoCoordinates"
    by code_simp+
  then have h1: "\<forall>f\<in>set [featureNoGeometry, featureNoCoordinates]. \<not> hasCoordinates f"
    by simp
  have h2: "\<forall>pt. acceptAll pt" by (simp add: acceptAll_def)
  have p: "allFeatures degeneratePage = [featureNoGeometry, featureNoCoordinates]"
    by (simp add: degeneratePage_def)
  have h3: "\<forall>f\<in>set (allFeatures degeneratePage). f \<noteq> JNull \<and> \<not> hasCoordinates f"
    by code_simp
  have v: "boundsForFeatures acceptAll (filter hasCoordinates [featureNoGeometry, featureGin])
             = Inr (Some [(- 123, 50), (- 122, 51)])"
    by code_simp
  note T = bounds_skip_degenerate [of latitudeInRange "[featureNoGeometry, featureNoCoordinates]"
      None 0 degeneratePage]
  note U = bounds_skip_degenerate [of acceptAll "[featureNoGeometry, featureGin]" None 0 degeneratePage]
  have 1: "boundsForFeatures latitudeInRange [featureNoGeometry, featureNoCoordinates] = Inr None"
    by (rule T [THEN conjunct2, THEN conjunct1, THEN mp, OF h1])
  have 2: "boundsForFeatures acceptAll [featureNoGeometry, featureGin] = Inr (Some [(- 123, 50), (- 122, 51)])"
    using U [THEN conjunct1] v by simp
  have 3: "fitClick latitudeInRange degeneratePage = (degeneratePage, None)"
    by (rule T [THEN conjunct2, THEN conjunct2, THEN conjunct2, THEN conjunct2, THEN mp, OF h3])
  from g h2 p 1 2 3 show ?thesis by blast
qed

text \<open>
  Claim C6. Filtering the output of a filter with the same predicate returns that
  output; on a store without \<^verbatim>\<open>null\<close> entries it always returns; running
  \<^verbatim>\<open>applyFiltersAndRender\<close> a second time on the page it produced changes nothing more;
  and after any sequence of filter operations, each with its own state of the controls,
  \<^verbatim>\<open>allFeatures\<close> is the list it was. This holds in both scripts, also when Leaflet
  throws in \<^verbatim>\<open>renderMap\<close>.
\<close>

theorem filtering_is_pure:
  "(filterFeatures pass fs = Inr ys \<longrightarrow> filterFeatures pass ys = Inr ys) \<and>
   (JNull \<notin> set fs \<longrightarrow> (\<exists>ys. filterFeatures pass fs = Inr ys)) \<and>
   applyFiltersAndRender (fst (applyFiltersAndRender s)) = applyFiltersAndRender s \<and>
   applyFiltersAndRender_main draws (fst (applyFiltersAndRender_main draws s)) =
     applyFiltersAndRender_main draws s \<and>
   allFeatures (filterOperations uis s) = allFeatures s \<and>
   allFeatures (filterOperations_main draws uis s) = allFeatures s"
proof -
  have a: "filterFeatures pass fs = Inr ys \<longrightarrow> filterFeatures pass ys = Inr ys"
    using filterFeatures_idem by blast
  have b: "JNull \<notin> set fs \<longrightarrow> (\<exists>ys. filterFeatures pass fs = Inr ys)"
    by (simp add: filterFeatures_filter)
  show ?thesis
    apply (intro conjI)
         apply (rule a)
        apply (rule b)
       apply (rule applyFiltersAndRender_idem)
      apply (rule applyFiltersAndRender_main_idem)
     apply (rule filterOperations_store)
    apply (rule filterOperations_main_store)
    done
qed

theorem filtering_is_pure_witness:
  "filterFeatures (passesFilters searchPeak) [featureGin, featureNoGeometry] = Inr [featureGin] \<and>
   filterFeatures (passesFilters searchPeak) [featureGin] = Inr [featureGin] \<and>
   JNull \<notin> set [featureGin, featureNoGeometry] \<and>
   allFeatures (filterOperations [searchPeak, searchZermatt, noControls] loadedPage)
     = [featureGin, featureNoGeometry] \<and>
   allFeatures (filterOperations_main leafletDraws [searchPeak, searchZermatt, noControls] loadedMainPage)
     = [featureGin, featureNoGeometry] \<and>
   snd (applyFiltersAndRender_main leafletDraws undrawablePage) = Some LibraryError \<and>
   snd (applyFiltersAndRender_main leafletDraws
          (fst (applyFiltersAndRender_main leafletDraws undrawablePage))) = Some LibraryError \<and>
   allFeatures (filterOperations_main leafletDraws [noControls, searchPeak] undrawablePage)
     = [featureGin, featureNoCoordinates]"
proof -
  have h: "filterFeatures (passesFilters searchPeak) [featureGin, featureNoGeometry] = Inr [featureGin]"
    by code_simp
  have n: "JNull \<notin> set [featureGin, featureNoGeometry]" by code_simp
  have s1: "allFeatures loadedPage = [featureGin, featureNoGeometry]"
    by (simp add: loadedPage_def)
  have s2: "allFeatures loadedMainPage = [featureGin, featureNoGeometry]"
    by (simp add: loadedMainPage_def)
  have s3: "allFeatures undrawablePage = [featureGin, featureNoCoordinates]"
    by (simp add: undrawablePage_def)
  have thrown: "snd (applyFiltersAndRender_main leafletDraws undrawablePage) = Some LibraryError"
    by code_simp
  note T = filtering_is_pure [of "passesFilters searchPeak" "[featureGin, featureNoGeometry]"
      "[featureGin]" loadedPage leafletDraws "[searchPeak, searchZermatt, noControls]"]
  note U = filtering_is_pure [of "passesFilters searchPeak" "[featureGin, featureNoGeometry]"
      "[featureGin]" loadedMainPage leafletDraws "[searchPeak, searchZermatt, noControls]"]
  note V = filtering_is_pure [of "passesFilters searchPeak" "[featureGin, featureNoGeometry]"
      "[featureGin]" undrawablePage leafletDraws "[noControls, searchPeak]"]
  have 1: "filterFeatures (passesFilters searchPeak) [featureGin] = Inr [featureGin]"
    by (rule T [THEN conjunct1, THEN mp, OF h])
  have 2: "allFeatures (filterOperations [searchPeak, searchZermatt, noControls] loadedPage)
     = [featureGin, featureNoGeometry]"
    using T [THEN conjunct2, THEN conjunct2, THEN conjunct2, THEN conjunct2, THEN conjunct1] s1
    by simp
  have 3: "allFeatures (filterOperations_main leafletDraws [searchPeak, searchZermatt, noControls]
              loadedMainPage) = [featureGin, featureNoGeometry]"
    using U [THEN conjunct2, THEN conjunct2, THEN conjunct2, THEN conjunct2, THEN conjunct2] s2
    by simp
  have 4: "snd (applyFiltersAndRender_main leafletDraws
          (fst (applyFiltersAndRender_main leafletDraws undrawablePage))) = Some LibraryError"
    using V [THEN conjunct2, THEN conjunct2, THEN conjunct2, THEN conjunct1] thrown
    by simp
  have 5: "allFeatures (filterOperations_main leafletDraws [noControls, searchPeak] undrawablePage)
     = [featureGin, featureNoCoordinates]"
    using V [THEN conjunct2, THEN conjunct2, THEN conjunct2, THEN conjunct2, THEN conjunct2] s3
    by simp
  from h n 1 2 3 4 5 thrown show ?thesis by blast
qed

text \<open>
  Claim C3, where the code departs from it. \<^verbatim>\<open>loadGeoJSON\<close> maps the province of every
  feature through \<^verbatim>\<open>String\<close> before \<^verbatim>\<open>uniqSorted\<close> drops the falsy values, so a
  feature without a province puts the option \<^verbatim>\<open>undefined\<close> into the selector, whatever
  the collation and the map library are.
\<close>

theorem absent_province_listed:
  "selectOptions (fst (loadGeoJSON cmp valid (Resolved True (Some collectionNoProvince)) mapboxPage))
       ''province''
     = [([], ''All provinces''), (''undefined'', ''undefined'')]"
  by (simp add: loadGeoJSON_def loadBody_def loadedFeatures_def collectionNoProvince_def mapboxPage_def
      orElse_def uniqSorted_def uniq_def sortWith_def populateSelect_def Let_def
      applyFiltersAndRender_def setSourceData_def fitIfAny_def
      split: sum.splits prod.splits option.splits)

text \<open>
  Claim C4, as amended. When the request is rejected or the response is not ok, both
  scripts return without throwing after the one call of \<^verbatim>\<open>fetch\<close>, and leave
  \<^verbatim>\<open>allFeatures\<close> and everything else of the page as it was, but for this: a rejection is
  written to the console, and docs/js/main.js sets the text of \<^verbatim>\<open>#count\<close>, where the page
  has that element, to the failure message. docs/js/main\_mapbox.js shows nothing.
\<close>

theorem failed_load:
  assumes "fetchFailed res"
  shows "loadGeoJSON_main draws res s =
           (s\<lparr> fetchCount := fetchCount s + 1,
               countLabel := map_option (\<lambda>old. ''Failed to load data/tours.geojson'') (countLabel s),
               consoleErrors := consoleErrors s @ (if res = Rejected then [NetworkFailure] else []) \<rparr>,
            None) \<and>
         loadGeoJSON cmp valid res s =
           (s\<lparr> fetchCount := fetchCount s + 1,
               consoleErrors := consoleErrors s @ (if res = Rejected then [NetworkFailure] else []) \<rparr>,
            None)"
  using assms
  by (cases res; cases "countLabel s")
     (simp_all add: fetchFailed_def loadGeoJSON_main_def loadGeoJSON_def reportFailure_def Let_def)

theorem failed_load_witness:
  "fetchFailed Rejected \<and> fetchFailed (Resolved False None) \<and>
   countLabel (fst (loadGeoJSON_main leafletDraws Rejected loadedMainPage)) =
     Some ''Failed to load data/tours.geojson'' \<and>
   allFeatures (fst (loadGeoJSON_main leafletDraws Rejected loadedMainPage)) = allFeatures loadedMainPage \<and>
   fetchCount (fst (loadGeoJSON_main leafletDraws Rejected loadedMainPage)) = 1 \<and>
   snd (loadGeoJSON_main leafletDraws Rejected loadedMainPage) = None \<and>
   allFeatures (fst (loadGeoJSON sampleCompare latitudeInRange (Resolved False None) loadedPage))
     = allFeatures loadedPage"
proof -
  have h1: "fetchFailed Rejected" by (simp add: fetchFailed_def)
  have h2: "fetchFailed (Resolved False None)" by (simp add: fetchFailed_def)
  have c: "countLabel loadedMainPage = Some []" "fetchCount loadedMainPage = 0"
    by (simp_all add: loadedMainPage_def mainPage_def)
  from failed_load [OF h1, of leafletDraws loadedMainPage sampleCompare latitudeInRange]
    failed_load [OF h2, of leafletDraws loadedPage sampleCompare latitudeInRange] h1 h2 c
  show ?thesis by simp
qed

text \<open>The claim as written fails in docs/js/main\_mapbox.js: after a response that is not
  ok the page is the page before, with one more fetch counted; its status element is
  untouched.\<close>

theorem silent_failure_counterexample:
  "loadGeoJSON sampleCompare latitudeInRange (Resolved False None) mapboxPage =
     (mapboxPage\<lparr> fetchCount := 1 \<rparr>, None) \<and>
   countLabel (fst (loadGeoJSON sampleCompare latitudeInRange (Resolved False None) mapboxPage)) =
     countLabel mapboxPage"
  by (simp add: loadGeoJSON_def mapboxPage_def)

section \<open>Claim about the popup markup\<close>

text \<open>
  Claim C10. \<^verbatim>\<open>escapeHtml\<close> replaces every \<^verbatim>\<open>&\<close>, \<^verbatim>\<open><\<close>, \<^verbatim>\<open>>\<close>, double quote and
  single quote of its argument's string by its entity and keeps every other character,
  so its output holds none of \<^verbatim>\<open><\<close>, \<^verbatim>\<open>>\<close> and the two quotes; \<^verbatim>\<open>escapeAttr\<close>
  replaces every double quote by \<^verbatim>\<open>%22\<close>, so its output holds none. The lines of the
  popup of docs/js/main\_mapbox.js are: the title (else the slug, else \<^verbatim>\<open>Tour\<close>) in
  bold, the region, the direction (else the misspelled field), the vertical gain and the
  distance, each of them through \<^verbatim>\<open>escapeHtml\<close> and only when it is there, and the link
  whose \<^verbatim>\<open>href\<close> is the GPX address through \<^verbatim>\<open>escapeAttr\<close>. \<^verbatim>\<open>popupHtml\<close> is the first
  line followed by the other non-empty lines, each after a line break; its only double
  quotes are the six of the link, and without a link its only \<^verbatim>\<open><\<close> are those of the
  bold tags and of the line breaks.
\<close>

theorem popup_escaping:
  "escapeHtml s = concat (map htmlEntity (String_js s)) \<and>
   noMarkup (escapeHtml s) \<and>
   escapeAttr s = concat (map attrEscape (String_js s)) \<and>
   CHR 0x22 \<notin> set (escapeAttr s) \<and>
   popupLines p =
     [ ''<b>'' @ concat (map htmlEntity (String_js
          (coalesce (coalesce (get p ''title'') (get p ''slug'')) (Some (JStr ''Tour''))))) @ ''</b>'',
       if truthyV (get p ''region'')
       then concat (map htmlEntity (String_js (get p ''region''))) else [],
       if truthyV (orElse (get p ''direction'') (get p ''direcrtion''))
       then concat (map htmlEntity (String_js (orElse (get p ''direction'') (get p ''direcrtion''))))
       else [],
       if \<not> nullish (get p ''vert_m'')
       then ''Vert: '' @ concat (map htmlEntity (String_js (get p ''vert_m''))) @ '' m'' else [],
       if \<not> nullish (get p ''distance_km'')
       then ''Dist: '' @ concat (map htmlEntity (String_js (get p ''distance_km''))) @ '' km'' else [],
       if truthyV (get p ''gpx'')
       then ''<a href='' @ [CHR 0x22] @ concat (map attrEscape (String_js (get p ''gpx''))) @ [CHR 0x22] @
            '' target='' @ [CHR 0x22] @ ''_blank'' @ [CHR 0x22] @
            '' rel='' @ [CHR 0x22] @ ''noopener'' @ [CHR 0x22] @ ''>Download GPX</a>''
       else [] ] \<and>
   popupHtml p =
     hd (popupLines p) @
     concat (map (\<lambda>l. ''<br>'' @ l) (filter (\<lambda>l. l \<noteq> []) (tl (popupLines p)))) \<and>
   count_list (popupHtml p) (CHR 0x22) = (if truthyV (get p ''gpx'') then 6 else 0) \<and>
   (\<not> truthyV (get p ''gpx'') \<longrightarrow>
      count_list (popupHtml p) (CHR ''<'') = 1 + length (filter (\<lambda>l. l \<noteq> []) (popupLines p)))"
proof -
  let ?q = "CHR 0x22"
  let ?dir = "orElse (orElse (get p ''direction'') (get p ''direcrtion'')) (Some (JStr []))"
  let ?D = "orElse (get p ''direction'') (get p ''direcrtion'')"
  let ?T = "coalesce (coalesce (get p ''title'') (get p ''slug'')) (Some (JStr ''Tour''))"
  define l0 where "l0 = ''<b>'' @ escapeHtml ?T @ ''</b>''"
  define r where "r = (if truthyV (get p ''region'') then escapeHtml (get p ''region'') else [])"
  define d where "d = (if truthyV ?D then escapeHtml ?D else [])"
  define v where "v = (if \<not> nullish (get p ''vert_m'')
           then ''Vert: '' @ escapeHtml (Some (JStr (String_js (get p ''vert_m'')))) @ '' m''
           else [])"
  define k where "k = (if \<not> nullish (get p ''distance_km'')
           then ''Dist: '' @ escapeHtml (Some (JStr (String_js (get p ''distance_km'')))) @ '' km''
           else [])"
  define g where "g = (if truthyV (get p ''gpx'')
           then ''<a href='' @ [?q] @ escapeAttr (get p ''gpx'') @ [?q] @
                '' target='' @ [?q] @ ''_blank'' @ [?q] @
                '' rel='' @ [?q] @ ''noopener'' @ [?q] @ ''>Download GPX</a>''
           else [])"
  have dir: "(if truthyV ?dir then escapeHtml ?dir else []) = d"
    by (simp add: d_def orElse_def [of ?D])
  have lines: "popupLines p = [l0, r, d, v, k, g]"
    unfolding popupLines_def Let_def dir l0_def r_def v_def k_def g_def by (rule refl)
  have ent: "popupLines p =
     [ ''<b>'' @ concat (map htmlEntity (String_js ?T)) @ ''</b>'',
       if truthyV (get p ''region'')
       then concat (map htmlEntity (String_js (get p ''region''))) else [],
       if truthyV ?D then concat (map htmlEntity (String_js ?D)) else [],
       if \<not> nullish (get p ''vert_m'')
       then ''Vert: '' @ concat (map htmlEntity (String_js (get p ''vert_m''))) @ '' m'' else [],
       if \<not> nullish (get p ''distance_km'')
       then ''Dist: '' @ concat (map htmlEntity (String_js (get p ''distance_km''))) @ '' km'' else [],
       if truthyV (get p ''gpx'')
       then ''<a href='' @ [?q] @ concat (map attrEscape (String_js (get p ''gpx''))) @ [?q] @
            '' target='' @ [?q] @ ''_blank'' @ [?q] @
            '' rel='' @ [?q] @ ''noopener'' @ [?q] @ ''>Download GPX</a>''
       else [] ]"
    unfolding lines l0_def r_def d_def v_def k_def g_def
      escapeHtml_entities escapeAttr_escapes String_js.simps toString.simps
    by (rule refl)
  have l0: "l0 \<noteq> []" by (simp add: l0_def)
  have html: "popupHtml p =
     hd (popupLines p) @
     concat (map (\<lambda>l. ''<br>'' @ l) (filter (\<lambda>l. l \<noteq> []) (tl (popupLines p))))"
    unfolding popupHtml_def lines list.sel using l0 by (simp add: joinWith_Cons)
  have nq: "count_list (escapeHtml x) ?q = 0" for x
    using escapeHtml_noMarkup [of x] by (intro count_list_absent) (auto simp: noMarkup_def)
  have nl: "count_list (escapeHtml x) (CHR ''<'') = 0" for x
    using escapeHtml_noMarkup [of x] by (intro count_list_absent) (auto simp: noMarkup_def)
  have na: "count_list (escapeAttr x) ?q = 0" for x
    using escapeAttr_no_quote [of x] by (rule count_list_absent)
  have q0: "count_list l0 ?q = 0" "count_list r ?q = 0" "count_list d ?q = 0"
    "count_list v ?q = 0" "count_list k ?q = 0"
    by (simp_all add: l0_def r_def d_def v_def k_def nq)
  have qg: "count_list g ?q = (if truthyV (get p ''gpx'') then 6 else 0)"
    by (simp add: g_def na)
  have quotes: "count_list (popupHtml p) ?q = (if truthyV (get p ''gpx'') then 6 else 0)"
  proof -
    have "count_list (popupHtml p) ?q =
        count_list l0 ?q + sum_list (map (\<lambda>l. count_list l ?q) [r, d, v, k, g])"
      unfolding html lines list.sel count_list_append
      by (subst count_joined_lines) simp_all
    also have "\<dots> = (if truthyV (get p ''gpx'') then 6 else 0)"
      by (simp add: q0 qg)
    finally show ?thesis .
  qed
  have tags: "count_list (popupHtml p) (CHR ''<'') = 1 + length (filter (\<lambda>l. l \<noteq> []) (popupLines p))"
    if "\<not> truthyV (get p ''gpx'')"
  proof -
    have t0: "count_list l0 (CHR ''<'') = 2" by (simp add: l0_def nl)
    have "count_list r (CHR ''<'') = 0" "count_list d (CHR ''<'') = 0"
      "count_list v (CHR ''<'') = 0" "count_list k (CHR ''<'') = 0" "count_list g (CHR ''<'') = 0"
      using that by (simp_all add: r_def d_def v_def k_def g_def nl)
    then have z: "\<forall>l\<in>set [r, d, v, k, g]. count_list l (CHR ''<'') = 0"
      by simp
    have b: "count_list ''<br>'' (CHR ''<'') = 1" by simp
    have f: "filter (\<lambda>l. l \<noteq> []) [l0, r, d, v, k, g] = l0 # filter (\<lambda>l. l \<noteq> []) [r, d, v, k, g]"
      using l0 by simp
    have "count_list (popupHtml p) (CHR ''<'') =
        count_list l0 (CHR ''<'') +
        length (filter (\<lambda>l. l \<noteq> []) [r, d, v, k, g]) * count_list ''<br>'' (CHR ''<'')"
      unfolding html lines list.sel count_list_append
      by (simp only: count_lines_with_breaks [OF z])
    also have "\<dots> = 1 + length (filter (\<lambda>l. l \<noteq> []) [l0, r, d, v, k, g])"
      by (simp only: t0 b f) simp
    finally show ?thesis unfolding lines .
  qed
  show ?thesis
    apply (intro conjI)
           apply (rule escapeHtml_entities)
          apply (rule escapeHtml_noMarkup)
         apply (rule escapeAttr_escapes)
        apply (rule escapeAttr_no_quote)
       apply (rule ent)
      apply (rule html)
     apply (rule quotes)
    apply (rule impI, erule tags)
    done
qed

text \<open>A tour whose title is an \<^verbatim>\<open>img\<close> tag with a handler, whose region holds a single
  quote and an ampersand, and whose GPX address holds two double quotes.\<close>

theorem popup_escaping_witness:
  "escapeHtml (get hostileTour ''title'') = ''&lt;img src=x onerror=alert(1)&gt;'' \<and>
   noMarkup (escapeHtml (get hostileTour ''title'')) \<and>
   escapeAttr (get hostileTour ''gpx'') = ''a.gpx%22 onclick=%22x'' \<and>
   popupLines hostileTour =
     [''<b>&lt;img src=x onerror=alert(1)&gt;</b>'', ''O&#039;Brien &amp; Co'', [],
      ''Vert: 1200 m'', [],
      ''<a href='' @ [CHR 0x22] @ ''a.gpx%22 onclick=%22x'' @ [CHR 0x22] @
      '' target='' @ [CHR 0x22] @ ''_blank'' @ [CHR 0x22] @
      '' rel='' @ [CHR 0x22] @ ''noopener'' @ [CHR 0x22] @ ''>Download GPX</a>''] \<and>
   popupHtml hostileTour =
     ''<b>&lt;img src=x onerror=alert(1)&gt;</b><br>O&#039;Brien &amp; Co<br>Vert: 1200 m<br><a href='' @
     [CHR 0x22] @ ''a.gpx%22 onclick=%22x'' @ [CHR 0x22] @
     '' target='' @ [CHR 0x22] @ ''_blank'' @ [CHR 0x22] @
     '' rel='' @ [CHR 0x22] @ ''noopener'' @ [CHR 0x22] @ ''>Download GPX</a>'' \<and>
   truthyV (get hostileTour ''gpx'') \<and>
   count_list (popupHtml hostileTour) (CHR 0x22) = 6 \<and>
   \<not> truthyV (get tourGin ''gpx'') \<and>
   popupHtml tourGin = ''<b>Gin Peak</b><br>Whistler'' \<and>
   count_list (popupHtml tourGin) (CHR ''<'') = 3"
proof -
  note H = popup_escaping [of "get hostileTour ''title''" hostileTour]
  note A = popup_escaping [of "get hostileTour ''gpx''" hostileTour]
  note G = popup_escaping [of "get tourGin ''title''" tourGin]
  have e1: "concat (map htmlEntity (String_js (get hostileTour ''title'')))
              = ''&lt;img src=x onerror=alert(1)&gt;''"
    by code_simp
  have e2: "concat (map attrEscape (String_js (get hostileTour ''gpx''))) = ''a.gpx%22 onclick=%22x''"
    by code_simp
  have g: "truthyV (get hostileTour ''gpx'')" by code_simp
  have n: "\<not> truthyV (get tourGin ''gpx'')" by code_simp
  have l: "popupLines hostileTour =
     [''<b>&lt;img src=x onerror=alert(1)&gt;</b>'', ''O&#039;Brien &amp; Co'', [],
      ''Vert: 1200 m'', [],
      ''<a href='' @ [CHR 0x22] @ ''a.gpx%22 onclick=%22x'' @ [CHR 0x22] @
      '' target='' @ [CHR 0x22] @ ''_blank'' @ [CHR 0x22] @
      '' rel='' @ [CHR 0x22] @ ''noopener'' @ [CHR 0x22] @ ''>Download GPX</a>'']"
    by code_simp
  have h: "popupHtml hostileTour =
     ''<b>&lt;img src=x onerror=alert(1)&gt;</b><br>O&#039;Brien &amp; Co<br>Vert: 1200 m<br><a href='' @
     [CHR 0x22] @ ''a.gpx%22 onclick=%22x'' @ [CHR 0x22] @
     '' target='' @ [CHR 0x22] @ ''_blank'' @ [CHR 0x22] @
     '' rel='' @ [CHR 0x22] @ ''noopener'' @ [CHR 0x22] @ ''>Download GPX</a>''"
    by code_simp
  have t: "popupHtml tourGin = ''<b>Gin Peak</b><br>Whistler''" by code_simp
  have f: "length (filter (\<lambda>l. l \<noteq> []) (popupLines tourGin)) = 2" by code_simp
  have 1: "escapeHtml (get hostileTour ''title'') = ''&lt;img src=x onerror=alert(1)&gt;''"
    using H [THEN conjunct1] e1 by simp
  have 2: "noMarkup (escapeHtml (get hostileTour ''title''))"
    by (rule H [THEN conjunct2, THEN conjunct1])
  have 3: "escapeAttr (get hostileTour ''gpx'') = ''a.gpx%22 onclick=%22x''"
    using A [THEN conjunct2, THEN conjunct2, THEN conjunct1] e2 by simp
  have 4: "count_list (popupHtml hostileTour) (CHR 0x22) = 6"
    using H [THEN conjunct2, THEN conjunct2, THEN conjunct2, THEN conjunct2, THEN conjunct2,
        THEN conjunct2, THEN conjunct1] g by simp
  have 5: "count_list (popupHtml tourGin) (CHR ''<'') = 3"
    using G [THEN conjunct2, THEN conjunct2, THEN conjunct2, THEN conjunct2, THEN conjunct2,
        THEN conjunct2, THEN conjunct2, THEN mp, OF n] f by simp
  from 1 2 3 l h g 4 n t 5 show ?thesis by blast
qed

end
